theory Spec2Isabelle
  imports Main "HOL-Library.AList" "HOL-Library.Char_ord" "HOL-Library.List_Lexorder"
    "HOL-Library.Multiset"
begin

section \<open>JSON-compatible values\<close>

text \<open>
  Plugin configurations and collection payloads are JSON-compatible Python values
  (\<^verbatim>\<open>dict\<close>, \<^verbatim>\<open>list\<close>, \<^verbatim>\<open>str\<close>, \<^verbatim>\<open>int\<close>, \<^verbatim>\<open>bool\<close>, \<^verbatim>\<open>None\<close>).
  A \<^verbatim>\<open>dict\<close> is an association list in insertion order with string keys; a Python
  dict never holds a key twice, which is the predicate \<open>distinct (map fst m)\<close> where
  a statement depends on it. Strings are lists of HOL characters, read as the code points
  0..255. Floating-point numbers are left out of the model.
\<close>

datatype json =
    JNull
  | JBool bool
  | JInt int
  | JStr string
  | JArr "json list"
  | JObj "(string \<times> json) list"

section \<open>Python string operations used by the source\<close>

definition lower_char :: "char \<Rightarrow> char" where
  "lower_char c =
     (case map_of (zip ''ABCDEFGHIJKLMNOPQRSTUVWXYZ'' ''abcdefghijklmnopqrstuvwxyz'') c of
        None \<Rightarrow> c
      | Some l \<Rightarrow> l)"

text \<open>\<^verbatim>\<open>str.lower()\<close> on the ASCII letters; the keywords and patterns of the filter are
  ASCII, so the other code points below 256 never take part in a match.\<close>

definition lower :: "string \<Rightarrow> string" where
  "lower s = map lower_char s"

text \<open>\<^verbatim>\<open>str.isspace()\<close> and the regular expression class \<^verbatim>\<open>\s\<close> on code points below 256:
  TAB, LF, VT, FF, CR, the separators 0x1c..0x1f, SPACE, NEL (0x85) and NBSP (0xa0).\<close>

definition is_space :: "char \<Rightarrow> bool" where
  "is_space c \<longleftrightarrow>
     (of_char c :: nat) \<in> {9, 10, 11, 12, 13, 28, 29, 30, 31, 32, 133, 160}"

text \<open>\<^verbatim>\<open>str.strip()\<close>: leading and trailing whitespace removed.\<close>

definition strip :: "string \<Rightarrow> string" where
  "strip s = rev (dropWhile is_space (rev (dropWhile is_space s)))"

definition starts_with :: "string \<Rightarrow> string \<Rightarrow> bool" where
  "starts_with p s \<longleftrightarrow> take (length p) s = p"

text \<open>\<^verbatim>\<open>k in s\<close> for strings: \<open>k\<close> occurs in \<open>s\<close> as a contiguous substring.\<close>

fun contains :: "string \<Rightarrow> string \<Rightarrow> bool" where
  "contains k [] = (k = [])"
| "contains k (c # cs) = (starts_with k (c # cs) \<or> contains k cs)"

section \<open>Sensitive-data filter (sensitive\_filter.py)\<close>

definition SENSITIVE_KEYWORDS :: "string list" where
  "SENSITIVE_KEYWORDS =
    [''key'', ''secret'', ''token'', ''password'', ''credential'', ''api_key'',
     ''access_token'', ''private_key'', ''auth'', ''group_id'', ''group'', ''qq_group'',
     ''guild'', ''channel'', ''user_id'', ''user'', ''qq'', ''uin'', ''openid'', ''uid'',
     ''endpoint'', ''base_url'', ''api_base'', ''url'', ''uri'', ''webhook'', ''callback'',
     ''host'', ''domain'']"

text \<open>
  The key patterns all have one of two shapes, compiled with \<^verbatim>\<open>re.IGNORECASE\<close>:
  \<^verbatim>\<open>.*S$\<close> (\<open>Suffix S\<close>) and \<^verbatim>\<open>.*S(T)?$\<close> (\<open>SuffixOpt S T\<close>).
\<close>

datatype key_pattern = Suffix string | SuffixOpt string string

definition SENSITIVE_KEY_PATTERNS :: "key_pattern list" where
  "SENSITIVE_KEY_PATTERNS =
    [Suffix ''_key'', Suffix ''_secret'', Suffix ''_token'', Suffix ''_password'',
     Suffix ''_credential'', Suffix ''_access_token'', Suffix ''_private_key'',
     SuffixOpt ''_group'' ''_id'', SuffixOpt ''_guild'' ''_id'',
     SuffixOpt ''_channel'' ''_id'', SuffixOpt ''_user'' ''_id'',
     Suffix ''_qq'', Suffix ''_uin'', Suffix ''_openid'', Suffix ''_endpoint'',
     Suffix ''_base_url'', Suffix ''_api_base'', Suffix ''_url'', Suffix ''_uri'',
     SuffixOpt ''_webhook'' ''_url'', SuffixOpt ''_callback'' ''_url'',
     Suffix ''_host'', Suffix ''_domain'']"

text \<open>
  \<^verbatim>\<open>re.compile(".*S$", re.IGNORECASE).fullmatch(key)\<close>: the whole key is a run of
  characters other than the line feed (\<^verbatim>\<open>.\<close> without \<^verbatim>\<open>DOTALL\<close>) followed by \<open>S\<close>
  in any letter case; a full match ends at the end of the string, where \<^verbatim>\<open>$\<close> holds.
\<close>

definition fullmatch_suffix :: "string \<Rightarrow> string \<Rightarrow> bool" where
  "fullmatch_suffix suf key \<longleftrightarrow>
     length suf \<le> length key \<and>
     lower (drop (length key - length suf) key) = suf \<and>
     CHR 0x0A \<notin> set (take (length key - length suf) key)"

fun fullmatch :: "key_pattern \<Rightarrow> string \<Rightarrow> bool" where
  "fullmatch (Suffix s) key = fullmatch_suffix s key"
| "fullmatch (SuffixOpt s t) key = (fullmatch_suffix (s @ t) key \<or> fullmatch_suffix s key)"

definition is_sensitive_key :: "string \<Rightarrow> bool" where
  "is_sensitive_key key =
     (let key_lower = lower key in
      if list_ex (\<lambda>k. contains k key_lower) SENSITIVE_KEYWORDS then True
      else list_ex (\<lambda>p. fullmatch p key) SENSITIVE_KEY_PATTERNS)"

text \<open>\<^verbatim>\<open>.+\<close> at the end of a pattern matched with \<^verbatim>\<open>match\<close>: at least one character that is
  not a line feed follows.\<close>

definition dot_plus :: "string \<Rightarrow> bool" where
  "dot_plus s = (case s of [] \<Rightarrow> False | c # _ \<Rightarrow> c \<noteq> CHR 0x0A)"

text \<open>\<^verbatim>\<open>\s+.+\<close>: one whitespace character, then either more of \<^verbatim>\<open>\s+.+\<close> or \<^verbatim>\<open>.+\<close>.\<close>

fun spaces_dot_plus :: "string \<Rightarrow> bool" where
  "spaces_dot_plus [] = False"
| "spaces_dot_plus (c # cs) = (is_space c \<and> (dot_plus cs \<or> spaces_dot_plus cs))"

text \<open>A literal prefix under \<^verbatim>\<open>re.IGNORECASE\<close>, and what is left after it.\<close>

definition match_ci :: "string \<Rightarrow> string \<Rightarrow> string option" where
  "match_ci p s =
     (if length p \<le> length s \<and> lower (take (length p) s) = p
      then Some (drop (length p) s) else None)"

text \<open>
  \<open>SENSITIVE_VALUE_PATTERNS\<close>, each applied with \<^verbatim>\<open>match\<close> (anchored at the start):
  \<^verbatim>\<open>^sk-.*\<close>, \<^verbatim>\<open>^bearer\s+.+\<close>, \<^verbatim>\<open>^https?://.+\<close>, \<^verbatim>\<open>^wss?://.+\<close>.
\<close>

definition SENSITIVE_VALUE_PATTERNS :: "(string \<Rightarrow> bool) list" where
  "SENSITIVE_VALUE_PATTERNS =
    [\<lambda>s. match_ci ''sk-'' s \<noteq> None,
     \<lambda>s. (case match_ci ''bearer'' s of None \<Rightarrow> False | Some r \<Rightarrow> spaces_dot_plus r),
     \<lambda>s. (case match_ci ''https://'' s of Some r \<Rightarrow> dot_plus r
           | None \<Rightarrow> (case match_ci ''http://'' s of Some r \<Rightarrow> dot_plus r | None \<Rightarrow> False)),
     \<lambda>s. (case match_ci ''wss://'' s of Some r \<Rightarrow> dot_plus r
           | None \<Rightarrow> (case match_ci ''ws://'' s of Some r \<Rightarrow> dot_plus r | None \<Rightarrow> False))]"

fun is_sensitive_value :: "json \<Rightarrow> bool" where
  "is_sensitive_value (JStr v) = (let s = strip v in list_ex (\<lambda>p. p s) SENSITIVE_VALUE_PATTERNS)"
| "is_sensitive_value _ = False"

text \<open>
  \<open>filter_data depth max_depth data\<close>. The loop over \<^verbatim>\<open>data.items()\<close> is \<open>filter_items\<close>,
  with the dictionary \<^verbatim>\<open>filtered\<close> as accumulator; \<^verbatim>\<open>filtered[key] = ...\<close> is
  \<open>AList.update\<close>.
\<close>

fun filter_data :: "int \<Rightarrow> int \<Rightarrow> json \<Rightarrow> json"
  and filter_items :: "int \<Rightarrow> int \<Rightarrow> (string \<times> json) list \<Rightarrow> (string \<times> json) list
                         \<Rightarrow> (string \<times> json) list" where
  "filter_data depth max_depth (JObj items) =
     (if depth > max_depth then JObj items
      else JObj (filter_items depth max_depth items []))"
| "filter_data depth max_depth (JArr vs) =
     (if depth > max_depth then JArr vs
      else JArr (map (filter_data (depth + 1) max_depth) vs))"
| "filter_data depth max_depth data =
     (if depth > max_depth then data
      else if is_sensitive_value data then JNull
      else data)"
| "filter_items depth max_depth [] filtered = filtered"
| "filter_items depth max_depth ((key, v) # rest) filtered =
     (if is_sensitive_key key then filter_items depth max_depth rest filtered
      else if is_sensitive_value v then filter_items depth max_depth rest filtered
      else filter_items depth max_depth rest
             (AList.update key (filter_data (depth + 1) max_depth v) filtered))"

section \<open>Document model (models.py)\<close>

type_synonym dict = "(string \<times> json) list"

text \<open>
  The dataclasses. The fields \<^verbatim>\<open>name\<close> and \<^verbatim>\<open>version\<close> occur in two classes, so the
  fields carry the initial of their class: \<open>p_name\<close> is \<^verbatim>\<open>CollectionPlugin.name\<close> and
  \<open>m_name\<close> is \<^verbatim>\<open>CollectionMetadata.name\<close>.
\<close>

record ImportOptions =
  import_mode :: string
  apply_configs :: bool
  overwrite_existing_configs :: bool
  apply_priority :: bool
  proxy :: string

record CollectionPlugin =
  p_name :: string
  p_repo :: string
  p_version :: string
  p_display_name :: "string option"

record CollectionMetadata =
  m_name :: string
  m_description :: string
  m_author :: string
  m_version :: string
  m_created_at :: string
  m_astrbot_version :: string
  m_plugin_count :: int

record PluginCollection =
  schema_version :: string
  metadata :: CollectionMetadata
  plugins :: "CollectionPlugin list"
  plugin_configs :: "dict option"
  handler_priority_overrides :: "(string \<times> int) list option"

definition SCHEMA_VERSION :: string where
  "SCHEMA_VERSION = ''1.0''"

text \<open>\<^verbatim>\<open>CollectionPlugin.to_dict\<close>; the assignment \<^verbatim>\<open>data[k] = v\<close> is \<open>AList.update\<close>.\<close>

definition plugin_to_dict :: "CollectionPlugin \<Rightarrow> dict" where
  "plugin_to_dict p =
     (let data = [(''name'', JStr (p_name p)), (''repo'', JStr (p_repo p)),
                  (''version'', JStr (p_version p))]
      in case p_display_name p of
           None \<Rightarrow> data
         | Some d \<Rightarrow> AList.update ''display_name'' (JStr d) data)"

definition metadata_to_dict :: "CollectionMetadata \<Rightarrow> dict" where
  "metadata_to_dict m =
     [(''name'', JStr (m_name m)), (''description'', JStr (m_description m)),
      (''author'', JStr (m_author m)), (''version'', JStr (m_version m)),
      (''created_at'', JStr (m_created_at m)),
      (''astrbot_version'', JStr (m_astrbot_version m)),
      (''plugin_count'', JInt (m_plugin_count m))]"

text \<open>A \<^verbatim>\<open>dict[str, int]\<close> as a JSON object.\<close>

definition int_dict :: "(string \<times> int) list \<Rightarrow> dict" where
  "int_dict ov = map (\<lambda>(k, v). (k, JInt v)) ov"

definition to_dict :: "PluginCollection \<Rightarrow> dict" where
  "to_dict c =
     (let data = [(''schema_version'', JStr (schema_version c)),
                  (''metadata'', JObj (metadata_to_dict (metadata c))),
                  (''plugins'', JArr (map (\<lambda>p. JObj (plugin_to_dict p)) (plugins c)))];
          data = (case plugin_configs c of
                    None \<Rightarrow> data
                  | Some cfgs \<Rightarrow> AList.update ''plugin_configs'' (JObj cfgs) data);
          data = (case handler_priority_overrides c of
                    None \<Rightarrow> data
                  | Some ov \<Rightarrow> AList.update ''handler_priority_overrides'' (JObj (int_dict ov)) data)
      in data)"

section \<open>Auxiliary definitions for the statements\<close>

text \<open>The entries of a mapping that the loop of \<open>filter_data\<close> keeps.\<close>

definition kept :: "string \<times> json \<Rightarrow> bool" where
  "kept e \<longleftrightarrow> \<not> is_sensitive_key (fst e) \<and> \<not> is_sensitive_value (snd e)"

text \<open>Building blocks of nested test inputs: one mapping level that carries a secret next
  to the nested value, the same level after filtering, and one list level.\<close>

definition secret_level :: "json \<Rightarrow> json" where
  "secret_level x = JObj [(''token'', JStr ''t''), (''inner'', x)]"

definition clean_level :: "json \<Rightarrow> json" where
  "clean_level x = JObj [(''inner'', x)]"

definition list_level :: "json \<Rightarrow> json" where
  "list_level x = JArr [x]"

text \<open>A metadata value for concrete documents.\<close>

definition example_metadata :: CollectionMetadata where
  "example_metadata = \<lparr>m_name = ''demo'', m_description = '''', m_author = ''me'',
     m_version = ''1.0.0'', m_created_at = ''2024-01-01T00:00:00+00:00'',
     m_astrbot_version = ''4.0.0'', m_plugin_count = 0\<rparr>"

section \<open>Schema validation (jsonschema's \<open>Draft7Validator\<close> on \<open>JSON_SCHEMA\<close>)\<close>

text \<open>
  \<^verbatim>\<open>models.py\<close> validates with the third-party \<^verbatim>\<open>jsonschema\<close> library. The model is an
  interpreter for the Draft 7 keywords that \<open>JSON_SCHEMA\<close> uses, following the library's
  keyword functions: a schema is \<^verbatim>\<open>True\<close>, \<^verbatim>\<open>False\<close> or a dictionary of keywords, kept
  as a list because \<^verbatim>\<open>iter_errors\<close> visits the keywords in dictionary order. \<open>K_schema\<close>
  is the \<^verbatim>\<open>$schema\<close> entry, which has no keyword function; \<open>K_format\<close> reports nothing
  because the validator is built without a format checker. \<open>K_enum\<close> is restricted to
  string alternatives, the only kind in \<open>JSON_SCHEMA\<close>.
\<close>

datatype jtype = T_object | T_array | T_string | T_integer | T_number | T_boolean | T_null

datatype schema = SBool bool | SObj "keyword list"
and keyword =
    K_schema string
  | K_type "jtype list"
  | K_required "string list"
  | K_additionalProperties schema
  | K_properties "(string \<times> schema) list"
  | K_enum "string list"
  | K_maxLength nat
  | K_minimum int
  | K_items schema
  | K_format string

text \<open>An element of an error's path: a property name or an array index.\<close>

datatype pelem = Key string | Idx nat

text \<open>The content of an error message, without the rendering of \<^verbatim>\<open>repr\<close>:
  \<^verbatim>\<open>X is not of type T\<close>, \<^verbatim>\<open>'p' is a required property\<close>,
  \<^verbatim>\<open>Additional properties are not allowed (... unexpected)\<close> with the names sorted,
  \<^verbatim>\<open>X is not one of E\<close>, \<^verbatim>\<open>X is too long\<close>, \<^verbatim>\<open>X is less than the minimum of m\<close>,
  \<^verbatim>\<open>False schema does not allow X\<close>.\<close>

datatype vmsg =
    NotOfType json "jtype list"
  | RequiredProperty string
  | AdditionalNotAllowed "string list"
  | NotOneOf json "string list"
  | TooLong json
  | LessThanMinimum json int
  | FalseSchema json

datatype verror = ValidationError (err_path: "pelem list") (err_message: vmsg)

fun is_type :: "json \<Rightarrow> jtype \<Rightarrow> bool" where
  "is_type (JObj _) T_object = True"
| "is_type (JArr _) T_array = True"
| "is_type (JStr _) T_string = True"
| "is_type (JInt _) T_integer = True"
| "is_type (JInt _) T_number = True"
| "is_type (JBool _) T_boolean = True"
| "is_type JNull T_null = True"
| "is_type _ _ = False"

text \<open>\<^verbatim>\<open>validator.descend(instance, schema, path=p)\<close> puts \<open>p\<close> in front of the path of every
  error of the sub-instance.\<close>

definition descend :: "pelem \<Rightarrow> verror list \<Rightarrow> verror list" where
  "descend p errs = map (\<lambda>e. ValidationError (p # err_path e) (err_message e)) errs"

text \<open>\<^verbatim>\<open>schema.get("properties", {})\<close>, read by \<^verbatim>\<open>additionalProperties\<close>.\<close>

fun schema_properties :: "keyword list \<Rightarrow> (string \<times> schema) list" where
  "schema_properties [] = []"
| "schema_properties (K_properties ps # _) = ps"
| "schema_properties (_ # kws) = schema_properties kws"

text \<open>
  \<open>iter_errors schema instance\<close> and the keyword functions. Under
  \<^verbatim>\<open>additionalProperties\<close> with a schema, the library walks a \<^verbatim>\<open>set\<close> of the extra
  names; the model walks them in the order of the instance, and \<open>validate_dict\<close> sorts the
  errors by path afterwards.
\<close>

fun iter_errors :: "schema \<Rightarrow> json \<Rightarrow> verror list"
  and keyword_errors :: "keyword list \<Rightarrow> keyword \<Rightarrow> json \<Rightarrow> verror list" where
  "iter_errors (SBool b) instance =
     (if b then [] else [ValidationError [] (FalseSchema instance)])"
| "iter_errors (SObj kws) instance = concat (map (\<lambda>kw. keyword_errors kws kw instance) kws)"
| "keyword_errors kws (K_schema _) instance = []"
| "keyword_errors kws (K_format _) instance = []"
| "keyword_errors kws (K_type types) instance =
     (if list_ex (is_type instance) types then []
      else [ValidationError [] (NotOfType instance types)])"
| "keyword_errors kws (K_required required) instance =
     (case instance of
        JObj m \<Rightarrow> map (\<lambda>p. ValidationError [] (RequiredProperty p))
                   (filter (\<lambda>p. p \<notin> fst ` set m) required)
      | _ \<Rightarrow> [])"
| "keyword_errors kws (K_additionalProperties aP) instance =
     (case instance of
        JObj m \<Rightarrow>
          (let extras = filter (\<lambda>e. fst e \<notin> fst ` set (schema_properties kws)) m in
           case aP of
             SObj _ \<Rightarrow> concat (map (\<lambda>e. descend (Key (fst e)) (iter_errors aP (snd e))) extras)
           | SBool b \<Rightarrow>
               if \<not> b \<and> extras \<noteq> []
               then [ValidationError [] (AdditionalNotAllowed (sort (remdups (map fst extras))))]
               else [])
      | _ \<Rightarrow> [])"
| "keyword_errors kws (K_properties properties) instance =
     (case instance of
        JObj m \<Rightarrow>
          concat (map (\<lambda>ps. case map_of m (fst ps) of
                                None \<Rightarrow> []
                              | Some v \<Rightarrow> descend (Key (fst ps)) (iter_errors (snd ps) v))
                      properties)
      | _ \<Rightarrow> [])"
| "keyword_errors kws (K_enum enums) instance =
     (case instance of
        JStr s \<Rightarrow> if s \<in> set enums then [] else [ValidationError [] (NotOneOf instance enums)]
      | _ \<Rightarrow> [ValidationError [] (NotOneOf instance enums)])"
| "keyword_errors kws (K_maxLength mL) instance =
     (case instance of
        JStr s \<Rightarrow> if length s > mL then [ValidationError [] (TooLong instance)] else []
      | _ \<Rightarrow> [])"
| "keyword_errors kws (K_minimum mn) instance =
     (case instance of
        JInt i \<Rightarrow> if i < mn then [ValidationError [] (LessThanMinimum instance mn)] else []
      | _ \<Rightarrow> [])"
| "keyword_errors kws (K_items items) instance =
     (case instance of
        JArr xs \<Rightarrow> concat (map (\<lambda>ix. descend (Idx (fst ix)) (iter_errors items (snd ix)))
                             (enumerate 0 xs))
      | _ \<Rightarrow> [])"

definition string_schema :: schema where
  "string_schema = SObj [K_type [T_string]]"

definition JSON_SCHEMA :: schema where
  "JSON_SCHEMA = SObj
    [K_schema ''http://json-schema.org/draft-07/schema#'',
     K_type [T_object],
     K_required [''schema_version'', ''metadata'', ''plugins''],
     K_additionalProperties (SBool False),
     K_properties
      [(''schema_version'', SObj [K_type [T_string], K_enum [''1.0'']]),
       (''metadata'', SObj
          [K_type [T_object],
           K_required [''name'', ''description'', ''author'', ''version'', ''created_at'',
                       ''astrbot_version'', ''plugin_count''],
           K_additionalProperties (SBool False),
           K_properties
            [(''name'', SObj [K_type [T_string], K_maxLength 100]),
             (''description'', SObj [K_type [T_string], K_maxLength 500]),
             (''author'', string_schema),
             (''version'', string_schema),
             (''created_at'', SObj [K_type [T_string], K_format ''date-time'']),
             (''astrbot_version'', string_schema),
             (''plugin_count'', SObj [K_type [T_integer], K_minimum 0])]]),
       (''plugins'', SObj
          [K_type [T_array],
           K_items (SObj
             [K_type [T_object],
              K_required [''name'', ''repo'', ''version''],
              K_additionalProperties (SBool False),
              K_properties
               [(''name'', string_schema),
                (''repo'', string_schema),
                (''version'', string_schema),
                (''display_name'', SObj [K_type [T_string, T_null]])]])]),
       (''plugin_configs'', SObj [K_type [T_object, T_null], K_additionalProperties (SBool True)]),
       (''handler_priority_overrides'', SObj
          [K_type [T_object, T_null],
           K_additionalProperties (SObj [K_type [T_integer]])])]]"

text \<open>
  Python compares the sort keys \<^verbatim>\<open>list(e.path)\<close> as lists, element by element: names as
  strings by code point, indices as integers. A name and an index at the same position
  would raise \<^verbatim>\<open>TypeError\<close>; under \<open>JSON_SCHEMA\<close> the elements below one parent are all
  names or all indices, so the order between an index and a name (index first, here) is
  never consulted.
\<close>

instantiation pelem :: linorder
begin

fun less_eq_pelem :: "pelem \<Rightarrow> pelem \<Rightarrow> bool" where
  "less_eq_pelem (Idx i) (Idx j) = (i \<le> j)"
| "less_eq_pelem (Key a) (Key b) = (a \<le> b)"
| "less_eq_pelem (Idx _) (Key _) = True"
| "less_eq_pelem (Key _) (Idx _) = False"

definition less_pelem :: "pelem \<Rightarrow> pelem \<Rightarrow> bool" where
  "less_pelem x y \<longleftrightarrow> x \<le> y \<and> \<not> y \<le> x"

instance
proof
  fix x y z :: pelem
  show "x < y \<longleftrightarrow> x \<le> y \<and> \<not> y \<le> x" by (simp add: less_pelem_def)
  show "x \<le> x" by (cases x) simp_all
  show "x \<le> y \<Longrightarrow> y \<le> z \<Longrightarrow> x \<le> z" by (cases x; cases y; cases z) auto
  show "x \<le> y \<Longrightarrow> y \<le> x \<Longrightarrow> x = y" by (cases x; cases y) auto
  show "x \<le> y \<or> y \<le> x" by (cases x; cases y) auto
qed

end

datatype error =
    CollectionValidationError "(string \<times> vmsg) list"
  | ValueError string
  | CancelledError
  | TypeMismatch

text \<open>\<^verbatim>\<open>str(n)\<close> for an index, and \<^verbatim>\<open>sep.join(xs)\<close>.\<close>

fun str_nat :: "nat \<Rightarrow> string" where
  "str_nat n =
     (if n < 10 then [''0123456789'' ! n]
      else str_nat (n div 10) @ [''0123456789'' ! (n mod 10)])"

fun join :: "string \<Rightarrow> string list \<Rightarrow> string" where
  "join sep [] = []"
| "join sep [x] = x"
| "join sep (x # y # ys) = x @ sep @ join sep (y # ys)"

fun str_pelem :: "pelem \<Rightarrow> string" where
  "str_pelem (Key k) = k"
| "str_pelem (Idx i) = str_nat i"

text \<open>One entry of \<^verbatim>\<open>parts\<close>: the prefix (\<^verbatim>\<open>loc + ": "\<close>, or empty when \<^verbatim>\<open>loc\<close> is empty)
  and the message it is put in front of.\<close>

definition error_part :: "verror \<Rightarrow> string \<times> vmsg" where
  "error_part err =
     (let loc = join ''/'' (map str_pelem (err_path err));
          prefix = (if loc \<noteq> [] then loc @ '': '' else [])
      in (prefix, err_message err))"

text \<open>The sorted error list of \<open>validate_dict\<close>: \<^verbatim>\<open>sorted\<close> is stable, as \<open>sort_key\<close> is.\<close>

definition sorted_errors :: "dict \<Rightarrow> verror list" where
  "sorted_errors data = sort_key err_path (iter_errors JSON_SCHEMA (JObj data))"

text \<open>\<open>validate_dict\<close>; the exception carries the list \<^verbatim>\<open>parts\<close>, which the source joins
  with \<^verbatim>\<open>"; "\<close>.\<close>

definition validate_dict :: "dict \<Rightarrow> error + unit" where
  "validate_dict data =
     (let errors = sorted_errors data in
      if errors = [] then Inr ()
      else Inl (CollectionValidationError (map error_part errors)))"

text \<open>
  The conversions of \<open>from_dict\<close> are modelled on the values that pass \<open>validate_dict\<close>:
  \<^verbatim>\<open>str(x)\<close> on a string, \<^verbatim>\<open>int(x or 0)\<close> on an integer. \<open>None\<close> (and \<open>TypeMismatch\<close>
  in \<open>from_dict\<close>) stands for any other argument.
\<close>

definition get_str :: "dict \<Rightarrow> string \<Rightarrow> string \<Rightarrow> string option" where
  "get_str data k dflt =
     (case map_of data k of
        None \<Rightarrow> Some dflt
      | Some (JStr s) \<Rightarrow> Some s
      | Some _ \<Rightarrow> None)"

definition get_int_or_0 :: "dict \<Rightarrow> string \<Rightarrow> int option" where
  "get_int_or_0 data k =
     (case map_of data k of
        None \<Rightarrow> Some 0
      | Some (JInt i) \<Rightarrow> Some i
      | Some _ \<Rightarrow> None)"

definition plugin_from_dict :: "json \<Rightarrow> CollectionPlugin option" where
  "plugin_from_dict p =
     (case p of
        JObj data \<Rightarrow>
          (case (get_str data ''name'' [], get_str data ''repo'' [], get_str data ''version'' [],
                 (case map_of data ''display_name'' of
                    None \<Rightarrow> Some None
                  | Some JNull \<Rightarrow> Some None
                  | Some (JStr d) \<Rightarrow> Some (Some d)
                  | Some _ \<Rightarrow> None)) of
             (Some n, Some r, Some v, Some d) \<Rightarrow>
               Some \<lparr>p_name = n, p_repo = r, p_version = v, p_display_name = d\<rparr>
           | _ \<Rightarrow> None)
      | _ \<Rightarrow> None)"

definition metadata_from_dict :: "json \<Rightarrow> CollectionMetadata option" where
  "metadata_from_dict m =
     (case m of
        JObj data \<Rightarrow>
          (case (get_str data ''name'' [], get_str data ''description'' [],
                 get_str data ''author'' [], get_str data ''version'' [],
                 get_str data ''created_at'' [], get_str data ''astrbot_version'' [],
                 get_int_or_0 data ''plugin_count'') of
             (Some n, Some d, Some a, Some v, Some c, Some av, Some pc) \<Rightarrow>
               Some \<lparr>m_name = n, m_description = d, m_author = a, m_version = v,
                     m_created_at = c, m_astrbot_version = av, m_plugin_count = pc\<rparr>
           | _ \<Rightarrow> None)
      | _ \<Rightarrow> None)"

text \<open>A JSON object of integers as a \<^verbatim>\<open>dict[str, int]\<close>.\<close>

definition as_int_dict :: "dict \<Rightarrow> (string \<times> int) list option" where
  "as_int_dict d = those (map (\<lambda>(k, v). case v of JInt i \<Rightarrow> Some (k, i) | _ \<Rightarrow> None) d)"

definition from_dict :: "dict \<Rightarrow> error + PluginCollection" where
  "from_dict data =
     (case validate_dict data of
        Inl e \<Rightarrow> Inl e
      | Inr _ \<Rightarrow>
         (case (case map_of data ''metadata'' of None \<Rightarrow> None | Some m \<Rightarrow> metadata_from_dict m,
                case map_of data ''plugins'' of
                  None \<Rightarrow> Some []
                | Some (JArr ps) \<Rightarrow> those (map plugin_from_dict ps)
                | Some _ \<Rightarrow> None,
                get_str data ''schema_version'' SCHEMA_VERSION,
                case map_of data ''plugin_configs'' of
                  None \<Rightarrow> Some None
                | Some JNull \<Rightarrow> Some None
                | Some (JObj cfgs) \<Rightarrow> Some (Some cfgs)
                | Some _ \<Rightarrow> None,
                case map_of data ''handler_priority_overrides'' of
                  None \<Rightarrow> Some None
                | Some JNull \<Rightarrow> Some None
                | Some (JObj ov) \<Rightarrow> map_option Some (as_int_dict ov)
                | Some _ \<Rightarrow> None) of
            (Some meta, Some ps, Some sv, Some cfgs, Some ov) \<Rightarrow>
              Inr \<lparr>schema_version = sv, metadata = meta, plugins = ps,
                    plugin_configs = cfgs, handler_priority_overrides = ov\<rparr>
          | _ \<Rightarrow> Inl TypeMismatch))"

text \<open>The property names that \<open>JSON_SCHEMA\<close> allows at the top level.\<close>

definition TOP_PROPERTIES :: "string set" where
  "TOP_PROPERTIES = {''schema_version'', ''metadata'', ''plugins'', ''plugin_configs'',
                      ''handler_priority_overrides''}"

text \<open>A payload whose metadata lacks \<open>author\<close> and that has the unknown key \<open>extra\<close>.\<close>

definition incomplete_payload :: dict where
  "incomplete_payload =
     [(''schema_version'', JStr ''1.0''),
      (''metadata'', JObj [(''name'', JStr ''demo''), (''description'', JStr ''''),
                           (''version'', JStr ''1.0.0''), (''created_at'', JStr ''now''),
                           (''astrbot_version'', JStr ''4.0.0''), (''plugin_count'', JInt 0)]),
      (''plugins'', JArr []),
      (''extra'', JNull)]"

section \<open>Compatibility shims (compatibility.py)\<close>

text \<open>
  The key-value store \<^verbatim>\<open>sp\<close> and the handler registry \<^verbatim>\<open>star_handlers_registry\<close> belong
  to the host platform. The model keeps what \<^verbatim>\<open>compatibility.py\<close> reads and writes: whether
  \<^verbatim>\<open>sp.global_get\<close> and \<^verbatim>\<open>sp.global_put\<close> raise, the value stored under
  \<^verbatim>\<open>"handler_priority_overrides"\<close>, the map \<^verbatim>\<open>star_handlers_map\<close> from names to handler
  objects, the list \<^verbatim>\<open>_handlers\<close> of handler objects, and for each handler object the
  entry \<^verbatim>\<open>extras_configs["priority"]\<close>. Handler objects are addresses into a store, since the
  map and the list share them.

  A Python object found where a priority is expected is represented by what the code
  observes of it: its truth value and the result of \<^verbatim>\<open>int(...)\<close>, which is \<open>None\<close> when
  \<^verbatim>\<open>int\<close> raises.
\<close>

datatype pyobj = PyNone | PyInt int | PyOther (truthy: bool) (as_int: "int option")

fun py_truthy :: "pyobj \<Rightarrow> bool" where
  "py_truthy PyNone = False"
| "py_truthy (PyInt i) = (i \<noteq> 0)"
| "py_truthy (PyOther t _) = t"

fun py_int :: "pyobj \<Rightarrow> int option" where
  "py_int PyNone = None"
| "py_int (PyInt i) = Some i"
| "py_int (PyOther _ r) = r"

type_synonym addr = nat

record registry =
  sp_get_fails :: bool
  sp_put_fails :: bool
  sp_value :: "(string \<times> pyobj) list option"
  star_handlers_map :: "(string \<times> addr) list"
  handlers :: "addr list"
  priority_entry :: "addr \<Rightarrow> pyobj option"

text \<open>\<^verbatim>\<open>int(h.extras_configs.get("priority", 0) or 0)\<close>; \<open>None\<close> when \<^verbatim>\<open>int\<close> raises.\<close>

definition handler_priority :: "registry \<Rightarrow> addr \<Rightarrow> int option" where
  "handler_priority r a =
     (let v = (case priority_entry r a of None \<Rightarrow> PyInt 0 | Some x \<Rightarrow> x)
      in py_int (if py_truthy v then v else PyInt 0))"

text \<open>\<^verbatim>\<open>{str(k): int(v) for k, v in overrides.items()}\<close> on the stored value.\<close>

definition int_items :: "(string \<times> pyobj) list \<Rightarrow> (string \<times> int) list option" where
  "int_items d = those (map (\<lambda>(k, v). map_option (Pair k) (py_int v)) d)"

text \<open>The fallback loop of \<open>get_priority_overrides\<close> over \<^verbatim>\<open>star_handlers_map.items()\<close>.\<close>

fun registry_overrides :: "registry \<Rightarrow> (string \<times> addr) list \<Rightarrow> (string \<times> int) list
    \<Rightarrow> (string \<times> int) list" where
  "registry_overrides r [] overrides = overrides"
| "registry_overrides r ((name, handler) # rest) overrides =
     (let priority = (case handler_priority r handler of None \<Rightarrow> 0 | Some p \<Rightarrow> p)
      in if priority \<noteq> 0
         then registry_overrides r rest (AList.update name priority overrides)
         else registry_overrides r rest overrides)"

definition get_priority_overrides :: "registry \<Rightarrow> (string \<times> int) list" where
  "get_priority_overrides r =
     (case (if sp_get_fails r then None
            else case sp_value r of
                   None \<Rightarrow> None
                 | Some overrides \<Rightarrow> if overrides \<noteq> [] then int_items overrides else None) of
        Some result \<Rightarrow> result
      | None \<Rightarrow> registry_overrides r (star_handlers_map r) [])"

text \<open>The loop of \<open>apply_priority_overrides\<close> that writes the priorities into the handler
  objects found under their names.\<close>

fun set_priorities :: "(string \<times> int) list \<Rightarrow> registry \<Rightarrow> registry" where
  "set_priorities [] r = r"
| "set_priorities ((name, priority) # rest) r =
     (case map_of (star_handlers_map r) name of
        None \<Rightarrow> set_priorities rest r
      | Some handler \<Rightarrow>
          set_priorities rest
            (r\<lparr>priority_entry := (priority_entry r)(handler := Some (PyInt priority))\<rparr>))"

text \<open>
  \<^verbatim>\<open>_handlers.sort(key=lambda h: -int(...))\<close>: the keys are computed first; when one of
  them raises, the list is left as it was and the exception reaches the caller
  (\<open>None\<close>); otherwise the handlers are sorted by key, stably.
\<close>

definition sort_handlers :: "registry \<Rightarrow> registry option" where
  "sort_handlers r =
     (case those (map (\<lambda>h. map_option uminus (handler_priority r h)) (handlers r)) of
        None \<Rightarrow> None
      | Some keys \<Rightarrow> Some (r\<lparr>handlers := map snd (sort_key fst (zip keys (handlers r)))\<rparr>))"

text \<open>\<open>apply_priority_overrides\<close>. The argument is a \<^verbatim>\<open>dict[str, int]\<close>, on which the
  normalisation \<^verbatim>\<open>{str(k): int(v) ...}\<close> is the identity.\<close>

definition apply_priority_overrides :: "(string \<times> int) list \<Rightarrow> registry \<Rightarrow> bool \<times> registry" where
  "apply_priority_overrides overrides r =
     (let normalized = overrides in
      if \<not> sp_put_fails r
      then (True, r\<lparr>sp_value := Some (map (\<lambda>(k, v). (k, PyInt v)) normalized)\<rparr>)
      else
        (let r1 = set_priorities normalized r in
         case sort_handlers r1 of
           None \<Rightarrow> (False, r1)
         | Some r2 \<Rightarrow> (True, r2)))"

text \<open>The priorities of the handlers in dispatch order, when all of them convert.\<close>

definition dispatch_priorities :: "registry \<Rightarrow> int list option" where
  "dispatch_priorities r = those (map (handler_priority r) (handlers r))"

text \<open>A registry whose store rejects writes, with two handlers that carry no priority.\<close>

definition tied_registry :: registry where
  "tied_registry = \<lparr>sp_get_fails = True, sp_put_fails = True, sp_value = None,
     star_handlers_map = [(''first'', 0), (''second'', 1)], handlers = [0, 1],
     priority_entry = (\<lambda>_. None)\<rparr>"

section \<open>The plugin manager of the host platform\<close>

text \<open>
  \<^verbatim>\<open>PluginManager\<close> and its \<^verbatim>\<open>context\<close> belong to the host platform. Of a registered
  plugin (\<^verbatim>\<open>StarMetadata\<close>) the model keeps the attributes that the exporter and the
  importer read; \<^verbatim>\<open>name\<close>, \<^verbatim>\<open>repo\<close>, \<^verbatim>\<open>version\<close> and \<^verbatim>\<open>display_name\<close> may be \<^verbatim>\<open>None\<close>, and
  \<^verbatim>\<open>config\<close> is a dictionary (with a \<^verbatim>\<open>save_config\<close> method) or \<^verbatim>\<open>None\<close>.
\<close>

record StarMetadata =
  s_name :: "string option"
  s_repo :: "string option"
  s_version :: "string option"
  s_display_name :: "string option"
  s_reserved :: bool
  s_config :: "dict option"

text \<open>The world the collaborators act on: the handler registry with the key-value store,
  and the state of the plugin manager, of any type.\<close>

record 'pm world =
  reg :: registry
  pm :: 'pm

text \<open>
  The outcome of an awaited call into the plugin manager: it returns, raises an
  \<^verbatim>\<open>Exception\<close> whose \<^verbatim>\<open>str\<close> is the message, or raises \<^verbatim>\<open>asyncio.CancelledError\<close>,
  which is a \<^verbatim>\<open>BaseException\<close>: the handlers \<^verbatim>\<open>except Exception\<close> of the source do not
  catch it, so it leaves \<open>import_collection\<close>.
\<close>

datatype outcome = Ok | Raised string | Cancelled

text \<open>The outcome of the awaited \<^verbatim>\<open>detect_conflicts\<close>: its report (which may be
  \<^verbatim>\<open>None\<close>), an \<^verbatim>\<open>Exception\<close>, or \<^verbatim>\<open>asyncio.CancelledError\<close>.\<close>

datatype detection = Report "dict option" | DetectionFailed | DetectionCancelled

text \<open>
  The operations of the plugin manager that the source calls, as functions on the world.
  \<open>uninstall_plugin\<close>, \<open>install_plugin\<close> and \<open>reload\<close> are awaited. \<open>save_config\<close> (the
  method of the plugin's \<^verbatim>\<open>config\<close> object) is an ordinary call: it returns \<open>None\<close> when
  it succeeds and the message of the \<^verbatim>\<open>Exception\<close> it raises otherwise. \<open>detect_conflicts\<close>
  is \<open>None\<close> when the host has no module \<^verbatim>\<open>astrbot.core.star.conflict_detection\<close>; it
  reads the world and does not change it.
\<close>

record 'pm PluginManager =
  get_all_stars :: "'pm world \<Rightarrow> StarMetadata list"
  get_registered_star :: "string \<Rightarrow> 'pm world \<Rightarrow> StarMetadata option"
  uninstall_plugin :: "string \<Rightarrow> 'pm world \<Rightarrow> outcome \<times> 'pm world"
  install_plugin :: "string \<Rightarrow> string \<Rightarrow> 'pm world \<Rightarrow> outcome \<times> 'pm world"
  save_config :: "string \<Rightarrow> dict \<Rightarrow> 'pm world \<Rightarrow> string option \<times> 'pm world"
  reload :: "string \<Rightarrow> 'pm world \<Rightarrow> outcome \<times> 'pm world"
  detect_conflicts :: "(string list \<Rightarrow> 'pm world \<Rightarrow> detection) option"

text \<open>The calls into the collaborators, in the order in which a run makes them.\<close>

datatype event =
    CheckConflicts "string list"
  | Uninstall string
  | Install string string
  | SaveConfig string dict
  | Reload string
  | ApplyPriority "(string \<times> int) list"

text \<open>\<^verbatim>\<open>not x\<close> for an optional string: \<^verbatim>\<open>None\<close> or empty.\<close>

definition falsy :: "string option \<Rightarrow> bool" where
  "falsy x \<longleftrightarrow> x = None \<or> x = Some []"

section \<open>Importer (importer.py)\<close>

text \<open>\<open>ConflictDetectionCompatibility.check_conflicts\<close> and
  \<open>is_conflict_detection_available\<close>. A missing module and an \<^verbatim>\<open>Exception\<close> of
  \<^verbatim>\<open>detect_conflicts\<close> give \<^verbatim>\<open>None\<close>; a \<^verbatim>\<open>CancelledError\<close> is not caught.\<close>

definition check_conflicts :: "'pm PluginManager \<Rightarrow> string list \<Rightarrow> 'pm world \<Rightarrow>
    error + dict option" where
  "check_conflicts env names w =
     (case detect_conflicts env of
        None \<Rightarrow> Inr None
      | Some f \<Rightarrow>
          (case f names w of
             Report r \<Rightarrow> Inr r
           | DetectionFailed \<Rightarrow> Inr None
           | DetectionCancelled \<Rightarrow> Inl CancelledError))"

definition is_conflict_detection_available :: "'pm PluginManager \<Rightarrow> bool" where
  "is_conflict_detection_available env \<longleftrightarrow> detect_conflicts env \<noteq> None"

text \<open>The dictionary that \<open>import_collection\<close> returns; \<open>r_installed\<close> is its entry
  \<^verbatim>\<open>"installed"\<close>, and so on. The entry \<^verbatim>\<open>"conflicts"\<close> is present when the report is
  not \<^verbatim>\<open>None\<close>.\<close>

record ImportResult =
  r_installed :: "dict list"
  r_failed :: "dict list"
  r_skipped :: "dict list"
  r_uninstalled :: "dict list"
  r_configs_applied :: nat
  r_priority_applied :: bool
  r_conflicts :: "dict option"

text \<open>\<^verbatim>\<open>{p.name for p in ...get_all_stars()}\<close>.\<close>

definition installed_names :: "'pm PluginManager \<Rightarrow> 'pm world \<Rightarrow> string option set" where
  "installed_names env w = set (map s_name (get_all_stars env w))"

text \<open>
  The uninstall loop of \<open>import_collection\<close> over the list of plugins taken when the
  phase starts. The first component of the result tells whether an uninstall raised
  \<^verbatim>\<open>CancelledError\<close>, which ends the loop: the plugins after it are not visited.
\<close>

fun uninstall_loop :: "'pm PluginManager \<Rightarrow> string set \<Rightarrow> StarMetadata list \<Rightarrow>
    'pm world \<Rightarrow> event list \<Rightarrow> dict list \<Rightarrow> bool \<times> 'pm world \<times> event list \<times> dict list" where
  "uninstall_loop env keep [] w log uninstalled = (False, w, log, uninstalled)"
| "uninstall_loop env keep (p # ps) w log uninstalled =
     (if s_reserved p then uninstall_loop env keep ps w log uninstalled
      else case s_name p of
        None \<Rightarrow> uninstall_loop env keep ps w log uninstalled
      | Some n \<Rightarrow>
          if n = [] then uninstall_loop env keep ps w log uninstalled
          else if n \<in> keep then uninstall_loop env keep ps w log uninstalled
          else (case uninstall_plugin env n w of
                  (Ok, w') \<Rightarrow>
                    uninstall_loop env keep ps w' (log @ [Uninstall n])
                      (uninstalled @ [[(''name'', JStr n), (''status'', JStr ''ok'')]])
                | (Raised msg, w') \<Rightarrow>
                    uninstall_loop env keep ps w' (log @ [Uninstall n])
                      (uninstalled @ [[(''name'', JStr n), (''status'', JStr ''error''),
                                       (''message'', JStr msg)]])
                | (Cancelled, w') \<Rightarrow> (True, w', log @ [Uninstall n], uninstalled)))"

text \<open>The plugins of the document that the install phase skips.\<close>

definition skip_install :: "ImportOptions \<Rightarrow> string option set \<Rightarrow> CollectionPlugin \<Rightarrow> bool" where
  "skip_install options installed_before p \<longleftrightarrow>
     import_mode options = ''add'' \<and> Some (p_name p) \<in> installed_before"

text \<open>
  The install tasks. The source runs them under \<^verbatim>\<open>asyncio.gather\<close> with a semaphore of
  three; the model runs them one after the other in task order, which is one of the
  schedules, and \<open>gather\<close> returns their results in task order in any case.
\<close>

fun run_installs :: "'pm PluginManager \<Rightarrow> string \<Rightarrow> CollectionPlugin list \<Rightarrow> 'pm world \<Rightarrow>
    event list \<Rightarrow> (string \<times> outcome) list \<times> 'pm world \<times> event list" where
  "run_installs env prx [] w log = ([], w, log)"
| "run_installs env prx (p # ps) w log =
     (case install_plugin env (p_repo p) prx w of
        (r, w') \<Rightarrow>
          (case run_installs env prx ps w' (log @ [Install (p_repo p) prx]) of
             (rs, w'', log') \<Rightarrow> ((p_name p, r) # rs, w'', log')))"

text \<open>The loop over the gathered results; \<open>None\<close> when it re-raises a \<^verbatim>\<open>CancelledError\<close>.\<close>

fun collect_results :: "(string \<times> outcome) list \<Rightarrow> dict list \<Rightarrow> dict list \<Rightarrow>
    (dict list \<times> dict list) option" where
  "collect_results [] installed_results failed_results = Some (installed_results, failed_results)"
| "collect_results ((n, Cancelled) # rs) installed_results failed_results = None"
| "collect_results ((n, Ok) # rs) installed_results failed_results =
     collect_results rs
       (installed_results @ [[(''name'', JStr n), (''status'', JStr ''ok''),
                              (''message'', JStr ''installed'')]])
       failed_results"
| "collect_results ((n, Raised msg) # rs) installed_results failed_results =
     collect_results rs installed_results
       (failed_results @ [[(''name'', JStr n), (''status'', JStr ''error''),
                           (''message'', JStr msg)]])"

text \<open>\<^verbatim>\<open>{**current_cfg, **cfg}\<close>.\<close>

definition merge_dicts :: "dict \<Rightarrow> dict \<Rightarrow> dict" where
  "merge_dicts current_cfg cfg = fold (\<lambda>(k, v). AList.update k v) cfg current_cfg"

text \<open>
  The body of the config loop for one entry of \<^verbatim>\<open>collection.plugin_configs.items()\<close>,
  on the world, the calls made so far and the counter \<^verbatim>\<open>configs_applied\<close>; \<^verbatim>\<open>continue\<close>
  leaves the three as they are. The first component of the result tells whether the
  awaited \<^verbatim>\<open>reload\<close> raised \<^verbatim>\<open>CancelledError\<close>. A plugin's \<^verbatim>\<open>config\<close> is a dictionary, so
  \<^verbatim>\<open>dict(md.config)\<close> does not raise.
\<close>

definition config_step :: "'pm PluginManager \<Rightarrow> ImportOptions \<Rightarrow> string option set \<Rightarrow>
    string \<times> json \<Rightarrow> 'pm world \<times> event list \<times> nat \<Rightarrow>
    bool \<times> 'pm world \<times> event list \<times> nat" where
  "config_step env options installed_before item st =
     (case (item, st) of ((plugin_name, cfg), (w, log, applied)) \<Rightarrow>
        (case cfg of
           JObj c \<Rightarrow>
             (case get_registered_star env plugin_name w of
                None \<Rightarrow> (False, st)
              | Some md \<Rightarrow>
                  (case s_config md of
                     None \<Rightarrow> (False, st)
                   | Some current_cfg \<Rightarrow>
                       if current_cfg = [] then (False, st)
                       else if import_mode options = ''add''
                               \<and> Some plugin_name \<in> installed_before
                               \<and> \<not> overwrite_existing_configs options then (False, st)
                       else
                         (case save_config env plugin_name (merge_dicts current_cfg c) w of
                            (Some msg, w') \<Rightarrow>
                              (False, w',
                               log @ [SaveConfig plugin_name (merge_dicts current_cfg c)],
                               applied)
                          | (None, w') \<Rightarrow>
                              (case reload env plugin_name w' of
                                 (r, w'') \<Rightarrow>
                                   (r = Cancelled, w'',
                                    log @ [SaveConfig plugin_name (merge_dicts current_cfg c),
                                           Reload plugin_name],
                                    applied + 1)))))
         | _ \<Rightarrow> (False, st)))"

text \<open>The config loop; it ends at the first entry whose reload is cancelled.\<close>

fun config_loop :: "'pm PluginManager \<Rightarrow> ImportOptions \<Rightarrow> string option set \<Rightarrow> dict \<Rightarrow>
    'pm world \<times> event list \<times> nat \<Rightarrow> bool \<times> 'pm world \<times> event list \<times> nat" where
  "config_loop env options installed_before [] st = (False, st)"
| "config_loop env options installed_before (item # rest) st =
     (case config_step env options installed_before item st of
        (cancelled, st') \<Rightarrow>
          if cancelled then (True, st')
          else config_loop env options installed_before rest st')"

definition IMPORT_MODE_ERROR :: string where
  "IMPORT_MODE_ERROR =
     ''import_mode must be '' @ [CHR 0x27] @ ''add'' @ [CHR 0x27] @ '' or '' @
     [CHR 0x27] @ ''clean'' @ [CHR 0x27]"

text \<open>
  \<open>import_collection\<close>: the result or the exception, the world after the run and the
  calls made into the collaborators. A \<^verbatim>\<open>CancelledError\<close> of the conflict detection, of an
  uninstall, of an install (re-raised after the gather) or of a reload ends the run.
\<close>

definition import_collection :: "'pm PluginManager \<Rightarrow> PluginCollection \<Rightarrow> ImportOptions \<Rightarrow>
    'pm world \<Rightarrow> (error + ImportResult) \<times> 'pm world \<times> event list" where
  "import_collection env collection options w0 =
     (if import_mode options \<notin> {''add'', ''clean''} then (Inl (ValueError IMPORT_MODE_ERROR), w0, [])
      else
        let installed_before = installed_names env w0;
            names = map p_name (plugins collection);
            log0 = [CheckConflicts names]
        in case check_conflicts env names w0 of
             Inl e \<Rightarrow> (Inl e, w0, log0)
           | Inr conflict_report \<Rightarrow>
        let (cancelled1, w1, log1, uninstalled_results) =
               (if import_mode options = ''clean''
                then uninstall_loop env (set names) (get_all_stars env w0) w0 log0 []
                else (False, w0, log0, []))
        in if cancelled1 then (Inl CancelledError, w1, log1)
           else
        let skipped_results =
               map (\<lambda>p. [(''name'', JStr (p_name p)), (''reason'', JStr ''already_installed'')])
                 (filter (skip_install options installed_before) (plugins collection));
            tasks = filter (\<lambda>p. \<not> skip_install options installed_before p) (plugins collection);
            (raw, w2, log2) = run_installs env (proxy options) tasks w1 log1
        in case collect_results raw [] [] of
             None \<Rightarrow> (Inl CancelledError, w2, log2)
           | Some (installed_results, failed_results) \<Rightarrow>
               let (cancelled3, w3, log3, applied) =
                     (case plugin_configs collection of
                        Some cfgs \<Rightarrow>
                          if apply_configs options
                          then config_loop env options installed_before cfgs (w2, log2, 0)
                          else (False, w2, log2, 0)
                      | None \<Rightarrow> (False, w2, log2, 0))
               in if cancelled3 then (Inl CancelledError, w3, log3)
                  else
               let (ok, w4, log4) =
                     (case handler_priority_overrides collection of
                        Some ov \<Rightarrow>
                          if apply_priority options
                          then (case apply_priority_overrides ov (reg w3) of
                                  (b, r') \<Rightarrow> (b, w3\<lparr>reg := r'\<rparr>, log3 @ [ApplyPriority ov]))
                          else (False, w3, log3)
                      | None \<Rightarrow> (False, w3, log3))
               in (Inr \<lparr>r_installed = installed_results, r_failed = failed_results,
                        r_skipped = skipped_results, r_uninstalled = uninstalled_results,
                        r_configs_applied = applied, r_priority_applied = ok,
                        r_conflicts = conflict_report\<rparr>, w4, log4))"

text \<open>The list \<^verbatim>\<open>plugins_to_uninstall\<close> of \<open>preview\<close>, as the names it lists
  (\<^verbatim>\<open>None\<close> for a plugin without a name).\<close>

definition preview_uninstall :: "'pm PluginManager \<Rightarrow> PluginCollection \<Rightarrow> string \<Rightarrow> 'pm world
    \<Rightarrow> string option list" where
  "preview_uninstall env collection mode w =
     (if mode = ''clean''
      then map s_name
             (filter (\<lambda>p. \<not> s_reserved p \<and>
                          (case s_name p of None \<Rightarrow> True
                           | Some n \<Rightarrow> n \<notin> set (map p_name (plugins collection))))
                (get_all_stars env w))
      else [])"

text \<open>The names passed to \<open>uninstall_plugin\<close> in a run, in call order.\<close>

definition uninstall_attempts :: "event list \<Rightarrow> string list" where
  "uninstall_attempts log =
     List.map_filter (\<lambda>e. case e of Uninstall n \<Rightarrow> Some n | _ \<Rightarrow> None) log"

text \<open>The installed plugins that are not reserved, have a name, and whose name is not a
  plugin name of the document, by name in the order of the installed list.\<close>

definition uninstall_targets :: "StarMetadata list \<Rightarrow> PluginCollection \<Rightarrow> string list" where
  "uninstall_targets stars collection =
     List.map_filter
       (\<lambda>p. case s_name p of
               None \<Rightarrow> None
             | Some n \<Rightarrow>
                 if \<not> s_reserved p \<and> n \<noteq> [] \<and> n \<notin> set (map p_name (plugins collection))
                 then Some n else None)
       stars"

text \<open>The plugin whose configuration a call persists or that it reloads.\<close>

fun config_event_name :: "event \<Rightarrow> string option" where
  "config_event_name (SaveConfig n _) = Some n"
| "config_event_name (Reload n) = Some n"
| "config_event_name _ = None"

text \<open>
  A small plugin manager for concrete runs: its state is the list of registered plugins;
  uninstalling removes the plugins of that name, installing registers a plugin named
  after its repository, saving a configuration stores it, and no call fails. The host
  has no conflict detection.
\<close>

definition star :: "string \<Rightarrow> bool \<Rightarrow> dict option \<Rightarrow> StarMetadata" where
  "star n reserved cfg =
     \<lparr>s_name = Some n, s_repo = Some n, s_version = Some ''1.0'', s_display_name = None,
      s_reserved = reserved, s_config = cfg\<rparr>"

definition toy_pm :: "StarMetadata list PluginManager" where
  "toy_pm =
     \<lparr>get_all_stars = pm,
      get_registered_star = (\<lambda>n w. find (\<lambda>p. s_name p = Some n) (pm w)),
      uninstall_plugin = (\<lambda>n w. (Ok, w\<lparr>pm := filter (\<lambda>p. s_name p \<noteq> Some n) (pm w)\<rparr>)),
      install_plugin = (\<lambda>repo prx w. (Ok, w\<lparr>pm := pm w @ [star repo False None]\<rparr>)),
      save_config = (\<lambda>n cfg w.
         (None, w\<lparr>pm := map (\<lambda>p. if s_name p = Some n then p\<lparr>s_config := Some cfg\<rparr> else p)
                           (pm w)\<rparr>)),
      reload = (\<lambda>n w. (Ok, w)),
      detect_conflicts = None\<rparr>"

definition toy_world :: "StarMetadata list \<Rightarrow> StarMetadata list world" where
  "toy_world stars = \<lparr>reg = tied_registry, pm = stars\<rparr>"

definition collection_of :: "CollectionPlugin list \<Rightarrow> dict option \<Rightarrow> PluginCollection" where
  "collection_of ps cfgs =
     \<lparr>schema_version = ''1.0'', metadata = example_metadata, plugins = ps,
      plugin_configs = cfgs, handler_priority_overrides = None\<rparr>"

definition plugin_ref :: "string \<Rightarrow> CollectionPlugin" where
  "plugin_ref n = \<lparr>p_name = n, p_repo = n, p_version = ''1.0'', p_display_name = None\<rparr>"

definition options_of :: "string \<Rightarrow> ImportOptions" where
  "options_of mode =
     \<lparr>import_mode = mode, apply_configs = True, overwrite_existing_configs = False,
      apply_priority = True, proxy = []\<rparr>"

text \<open>The condition under which the config phase leaves a plugin alone.\<close>

definition config_skipped :: "ImportOptions \<Rightarrow> string option set \<Rightarrow> string \<Rightarrow> bool" where
  "config_skipped options installed_before n \<longleftrightarrow>
     import_mode options = ''add'' \<and> Some n \<in> installed_before \<and>
     \<not> overwrite_existing_configs options"

text \<open>The calls that a run of \<open>import_collection\<close> makes into the collaborators.\<close>

definition import_log :: "'pm PluginManager \<Rightarrow> PluginCollection \<Rightarrow> ImportOptions \<Rightarrow>
    'pm world \<Rightarrow> event list" where
  "import_log env collection options w = snd (snd (import_collection env collection options w))"

text \<open>A plugin manager whose uninstall is cancelled, and four installed plugins, the
  third reserved.\<close>

definition cancelling_pm :: "StarMetadata list PluginManager" where
  "cancelling_pm = toy_pm\<lparr>uninstall_plugin := (\<lambda>n w. (Cancelled, w))\<rparr>"

definition four_stars :: "StarMetadata list" where
  "four_stars =
     [star ''A'' False None, star ''B'' False None, star ''C'' True None, star ''D'' False None]"

text \<open>Three installed plugins, the third reserved, and one with a configuration.\<close>

definition three_stars :: "StarMetadata list" where
  "three_stars = [star ''A'' False None, star ''B'' False None, star ''C'' True None]"

definition configured_stars :: "StarMetadata list" where
  "configured_stars = [star ''A'' False (Some [(''x'', JInt 0)])]"

section \<open>Exporter (exporter.py)\<close>

text \<open>\<^verbatim>\<open>ExportOptions\<close>; \<open>x_name\<close> is its field \<^verbatim>\<open>name\<close>, and so on.\<close>

record ExportOptions =
  x_name :: string
  x_description :: string
  x_author :: string
  x_version :: string
  include_configs :: bool
  include_priority :: bool
  exclude_plugins :: "string list option"

text \<open>
  The loop of \<open>export\<close> over the registered plugins, with the list \<^verbatim>\<open>plugins\<close> and the
  dictionary \<^verbatim>\<open>plugin_configs\<close> as accumulators (the dictionary is used only when
  \<open>include_configs\<close> holds). \<^verbatim>\<open>SensitiveFilter.filter_data(cfg_dict)\<close> is the call with
  the defaults \<open>depth = 0\<close> and \<open>max_depth = 20\<close>.
\<close>

fun export_loop :: "ExportOptions \<Rightarrow> string set \<Rightarrow> StarMetadata list \<Rightarrow>
    CollectionPlugin list \<Rightarrow> dict \<Rightarrow> CollectionPlugin list \<times> dict" where
  "export_loop options exclude [] ps cfgs = (ps, cfgs)"
| "export_loop options exclude (plugin # rest) ps cfgs =
     (if (case s_name plugin of None \<Rightarrow> False | Some n \<Rightarrow> n \<in> exclude)
      then export_loop options exclude rest ps cfgs
      else if falsy (s_repo plugin) then export_loop options exclude rest ps cfgs
      else if falsy (s_name plugin) then export_loop options exclude rest ps cfgs
      else
        (case (s_name plugin, s_repo plugin) of
           (Some n, Some r) \<Rightarrow>
             (let ps' = ps @ [\<lparr>p_name = n, p_repo = r,
                                p_version = (case s_version plugin of None \<Rightarrow> [] | Some v \<Rightarrow> v),
                                p_display_name = s_display_name plugin\<rparr>]
              in if include_configs options
                 then (case s_config plugin of
                         None \<Rightarrow> export_loop options exclude rest ps' cfgs
                       | Some cfg \<Rightarrow>
                           export_loop options exclude rest ps'
                             (AList.update n (filter_data 0 20 (JObj cfg)) cfgs))
                 else export_loop options exclude rest ps' cfgs)
         | _ \<Rightarrow> export_loop options exclude rest ps cfgs))"

text \<open>
  The \<^verbatim>\<open>PluginCollection\<close> that \<open>export\<close> assembles. \<open>VERSION\<close> is the host's version
  constant and \<open>now\<close> the ISO timestamp of \<^verbatim>\<open>datetime.now(timezone.utc)\<close>.
\<close>

definition export_collection :: "'pm PluginManager \<Rightarrow> string \<Rightarrow> string \<Rightarrow> ExportOptions \<Rightarrow>
    'pm world \<Rightarrow> PluginCollection" where
  "export_collection env VERSION now options w =
     (let exclude = (case exclude_plugins options of None \<Rightarrow> {} | Some xs \<Rightarrow> set xs);
          (ps, cfgs) = export_loop options exclude (get_all_stars env w) [] [];
          meta = \<lparr>m_name = x_name options, m_description = x_description options,
                  m_author = x_author options, m_version = x_version options,
                  m_created_at = now, m_astrbot_version = VERSION,
                  m_plugin_count = int (length ps)\<rparr>
      in \<lparr>schema_version = SCHEMA_VERSION, metadata = meta, plugins = ps,
          plugin_configs = (if include_configs options then Some cfgs else None),
          handler_priority_overrides =
            (if include_priority options then Some (get_priority_overrides (reg w)) else None)\<rparr>)"

text \<open>\<open>export\<close>: the payload is validated before it is returned.\<close>

definition export :: "'pm PluginManager \<Rightarrow> string \<Rightarrow> string \<Rightarrow> ExportOptions \<Rightarrow>
    'pm world \<Rightarrow> error + dict" where
  "export env VERSION now options w =
     (let payload = to_dict (export_collection env VERSION now options w)
      in case validate_dict payload of
           Inl e \<Rightarrow> Inl e
         | Inr _ \<Rightarrow> Inr payload)"

text \<open>The default options for a collection named \<open>n\<close>, and an installed set with a
  secret in a configuration.\<close>

definition default_options :: "string \<Rightarrow> ExportOptions" where
  "default_options n =
     \<lparr>x_name = n, x_description = [], x_author = [], x_version = ''1.0.0'',
      include_configs = True, include_priority = True, exclude_plugins = None\<rparr>"

definition secret_stars :: "StarMetadata list" where
  "secret_stars =
     [star ''A'' False (Some [(''api_key'', JStr ''sk-abc123''), (''level'', JInt 3)]),
      star ''B'' True None]"

section \<open>Properties of the sensitive-data filter\<close>

lemma update_fresh: "k \<notin> fst ` set al \<Longrightarrow> AList.update k v al = al @ [(k, v)]"
  by (induction al) auto

lemma filter_items_distinct:
  "distinct (map fst items) \<Longrightarrow> fst ` set items \<inter> fst ` set acc = {} \<Longrightarrow>
   filter_items d md items acc =
     acc @ map (\<lambda>e. (fst e, filter_data (d + 1) md (snd e))) (filter kept items)"
proof (induction items arbitrary: acc)
  case Nil
  then show ?case by simp
next
  case (Cons e items)
  obtain k v where e: "e = (k, v)" by (cases e)
  from Cons.prems have d: "distinct (map fst items)" and kn: "k \<notin> fst ` set items"
    and ka: "k \<notin> fst ` set acc" and disj: "fst ` set items \<inter> fst ` set acc = {}"
    by (auto simp: e)
  show ?case
  proof (cases "kept e")
    case False
    then show ?thesis using Cons.IH[OF d disj] by (auto simp: e kept_def)
  next
    case True
    have disj': "fst ` set items \<inter> fst ` set (acc @ [(k, filter_data (d + 1) md v)]) = {}"
      using disj kn by auto
    show ?thesis using True Cons.IH[OF d disj'] ka
      by (simp add: e kept_def update_fresh)
  qed
qed

lemma map_of_filtered:
  "distinct (map fst m) \<Longrightarrow>
   map_of (map (\<lambda>e. (fst e, f (snd e))) (filter P m)) k =
     (case map_of m k of None \<Rightarrow> None
      | Some v \<Rightarrow> if P (k, v) then Some (f v) else None)"
proof (induction m)
  case Nil
  then show ?case by simp
next
  case (Cons e m)
  then show ?case
    by (cases e) (auto split: option.splits simp: map_of_eq_None_iff image_iff dest: map_of_SomeD)
qed

lemma sensitive_key_api_key: "is_sensitive_key ''api_key''"
  by code_simp

lemma sensitive_key_token: "is_sensitive_key ''token''"
  by code_simp

lemma not_sensitive_key_note: "\<not> is_sensitive_key ''note''"
  by code_simp

lemma not_sensitive_key_name: "\<not> is_sensitive_key ''name''"
  by code_simp

lemma not_sensitive_key_inner: "\<not> is_sensitive_key ''inner''"
  by code_simp

lemma sensitive_value_sk: "is_sensitive_value (JStr ''sk-abc123'')"
  by code_simp

lemma sensitive_value_http: "is_sensitive_value (JStr ''http://x'')"
  by code_simp

lemma not_sensitive_value_bot: "\<not> is_sensitive_value (JStr ''bot'')"
  by code_simp

lemma filter_data_beyond: "max_depth < depth \<Longrightarrow> filter_data depth max_depth data = data"
  by (cases data) auto

lemma filter_secret_level:
  "depth \<le> max_depth \<Longrightarrow> \<not> is_sensitive_value x \<Longrightarrow>
   filter_data depth max_depth (secret_level x) = clean_level (filter_data (depth + 1) max_depth x)"
  by (simp add: secret_level_def clean_level_def sensitive_key_token not_sensitive_key_inner)

lemma secret_level_not_sensitive: "\<not> is_sensitive_value (secret_level x)"
  by (simp add: secret_level_def)

lemma filter_list_level:
  "depth \<le> max_depth \<Longrightarrow>
   filter_data depth max_depth (list_level x) = list_level (filter_data (depth + 1) max_depth x)"
  by (simp add: list_level_def)

lemma filter_secret_levels:
  "depth + int n \<le> max_depth + 1 \<Longrightarrow>
   filter_data depth max_depth ((secret_level ^^ n) (secret_level x)) =
     (clean_level ^^ n) (filter_data (depth + int n) max_depth (secret_level x))"
proof (induction n arbitrary: depth)
  case 0
  then show ?case by simp
next
  case (Suc n)
  have "filter_data depth max_depth ((secret_level ^^ Suc n) (secret_level x)) =
        clean_level (filter_data (depth + 1) max_depth ((secret_level ^^ n) (secret_level x)))"
    using Suc.prems by (cases n) (simp_all add: filter_secret_level secret_level_not_sensitive)
  also have "\<dots> = clean_level ((clean_level ^^ n) (filter_data (depth + 1 + int n) max_depth (secret_level x)))"
    using Suc.prems by (subst Suc.IH) simp_all
  finally show ?case by (simp add: add.commute add.left_commute)
qed

lemma filter_list_levels:
  "depth + int n \<le> max_depth + 1 \<Longrightarrow>
   filter_data depth max_depth ((list_level ^^ n) x) =
     (list_level ^^ n) (filter_data (depth + int n) max_depth x)"
proof (induction n arbitrary: depth)
  case 0
  then show ?case by simp
next
  case (Suc n)
  have "filter_data depth max_depth ((list_level ^^ Suc n) x) =
        list_level (filter_data (depth + 1) max_depth ((list_level ^^ n) x))"
    using Suc.prems by (simp add: filter_list_level)
  also have "\<dots> = list_level ((list_level ^^ n) (filter_data (depth + 1 + int n) max_depth x))"
    using Suc.prems by (subst Suc.IH) simp_all
  finally show ?case by (simp add: add.commute add.left_commute)
qed

text \<open>
  Claim C2. For a mapping processed by the filter (a Python dict, so its keys are distinct,
  at a depth that does not exceed \<open>max_depth\<close>, as in the call with the defaults 0 and 20),
  the result is again a mapping, and looking a key up in it gives: nothing when the input
  has no such key; nothing when the key is sensitive or its value is a sensitive string
  (the entry is omitted, no placeholder is stored); and otherwise the input value filtered
  one level deeper. The key \<open>api_key\<close> is sensitive, and the value \<open>sk-abc123\<close> is
  sensitive although the key \<open>note\<close> that carries it is not.
\<close>

theorem filter_data_drops_sensitive_entries:
  assumes "distinct (map fst m)" and "depth \<le> max_depth"
  shows "(\<exists>r. filter_data depth max_depth (JObj m) = JObj r \<and> distinct (map fst r) \<and>
           (\<forall>k. map_of r k =
              (case map_of m k of None \<Rightarrow> None
               | Some v \<Rightarrow> if is_sensitive_key k \<or> is_sensitive_value v then None
                           else Some (filter_data (depth + 1) max_depth v)))) \<and>
         is_sensitive_key ''api_key'' \<and>
         is_sensitive_value (JStr ''sk-abc123'') \<and> \<not> is_sensitive_key ''note''"
proof -
  let ?r = "map (\<lambda>e. (fst e, filter_data (depth + 1) max_depth (snd e))) (filter kept m)"
  have r: "filter_data depth max_depth (JObj m) = JObj ?r"
    using assms filter_items_distinct[of m "[]" depth max_depth] by simp
  have mf: "map fst ?r = map fst (filter kept m)" by (simp add: comp_def)
  have dr: "distinct (map fst ?r)" unfolding mf using assms(1) by (rule distinct_map_filter)
  have "\<forall>k. map_of ?r k =
              (case map_of m k of None \<Rightarrow> None
               | Some v \<Rightarrow> if is_sensitive_key k \<or> is_sensitive_value v then None
                           else Some (filter_data (depth + 1) max_depth v))"
    using map_of_filtered[OF assms(1), of "filter_data (depth + 1) max_depth" kept]
    by (auto simp: kept_def split: option.splits)
  with r dr have "\<exists>r. filter_data depth max_depth (JObj m) = JObj r \<and> distinct (map fst r) \<and>
           (\<forall>k. map_of r k =
              (case map_of m k of None \<Rightarrow> None
               | Some v \<Rightarrow> if is_sensitive_key k \<or> is_sensitive_value v then None
                           else Some (filter_data (depth + 1) max_depth v)))" by blast
  then show ?thesis
    using sensitive_key_api_key sensitive_value_sk not_sensitive_key_note by blast
qed

text \<open>
  Claim C8. Once the depth exceeds \<open>max_depth\<close> the filter returns its argument
  unmodified, whatever it is. A mapping nested 25 levels deep, every level carrying a
  \<open>token\<close> entry beside the nested mapping, loses that entry on the levels at depths
  0 to 20 and keeps the subtree from depth 21 downwards (the four innermost levels and
  the leaf) exactly as it was.
\<close>

theorem filter_data_depth_bounded:
  "(max_depth < depth \<longrightarrow> filter_data depth max_depth data = data) \<and>
   filter_data 0 20 ((secret_level ^^ 25) leaf) =
     (clean_level ^^ 21) ((secret_level ^^ 4) leaf)"
proof
  show "max_depth < depth \<longrightarrow> filter_data depth max_depth data = data"
    by (simp add: filter_data_beyond)
  have split: "(secret_level ^^ 25) leaf = (secret_level ^^ 21) (secret_level ((secret_level ^^ 3) leaf))"
    by (simp add: eval_nat_numeral)
  have "filter_data 0 20 ((secret_level ^^ 25) leaf) =
        (clean_level ^^ 21) (filter_data 21 20 (secret_level ((secret_level ^^ 3) leaf)))"
    unfolding split using filter_secret_levels[of 0 21 20 "(secret_level ^^ 3) leaf"] by simp
  also have "\<dots> = (clean_level ^^ 21) ((secret_level ^^ 4) leaf)"
    by (simp add: filter_data_beyond eval_nat_numeral)
  finally show "filter_data 0 20 ((secret_level ^^ 25) leaf) =
     (clean_level ^^ 21) ((secret_level ^^ 4) leaf)" .
qed

theorem filter_data_depth_bounded_witness:
  "(20::int) < 21 \<and>
   filter_data 21 20 (JObj [(''api_key'', JStr ''sk-abc123'')]) = JObj [(''api_key'', JStr ''sk-abc123'')]"
  using filter_data_depth_bounded[of 20 21 "JObj [(''api_key'', JStr ''sk-abc123'')]" JNull]
  by simp

text \<open>
  Claim C10, as stated, fails at the depth bound: a list that sits at depth 20 under the
  default \<open>max_depth = 20\<close> is still processed, but its elements are at depth 21 and are
  returned unmodified, so the sensitive string \<open>http://x\<close> stays in the list.
\<close>

theorem filter_list_boundary_counterexample:
  "is_sensitive_value (JStr ''http://x'') \<and>
   filter_data 0 20 ((list_level ^^ 20) (JArr [JStr ''http://x''])) =
     (list_level ^^ 20) (JArr [JStr ''http://x''])"
proof
  show "is_sensitive_value (JStr ''http://x'')" by (rule sensitive_value_http)
  have "filter_data 0 20 ((list_level ^^ 20) (JArr [JStr ''http://x''])) =
        (list_level ^^ 20) (filter_data 20 20 (JArr [JStr ''http://x'']))"
    using filter_list_levels[of 0 20 20 "JArr [JStr ''http://x'']"] by simp
  also have "filter_data 20 20 (JArr [JStr ''http://x'']) = JArr [JStr ''http://x'']"
    by simp
  finally show "filter_data 0 20 ((list_level ^^ 20) (JArr [JStr ''http://x''])) =
     (list_level ^^ 20) (JArr [JStr ''http://x''])" .
qed

text \<open>
  Claim C10, amended. For every list at a depth that does not exceed \<open>max_depth\<close> the
  filter returns a list of the same length whose element at each position is the filtered
  input element of that position, so no element is dropped or moved. When the list lies
  strictly above the bound (\<open>depth < max_depth\<close>) an element that is a sensitive string
  becomes null in place; when the list lies exactly at the bound its elements are returned
  unmodified.
\<close>

theorem filter_data_list_elementwise:
  assumes "depth \<le> max_depth"
  shows "\<exists>r. filter_data depth max_depth (JArr vs) = JArr r \<and> length r = length vs \<and>
           (\<forall>i<length vs. r ! i = filter_data (depth + 1) max_depth (vs ! i)) \<and>
           (\<forall>i<length vs. depth < max_depth \<and> is_sensitive_value (vs ! i) \<longrightarrow> r ! i = JNull) \<and>
           (depth = max_depth \<longrightarrow> r = vs)"
proof -
  let ?r = "map (filter_data (depth + 1) max_depth) vs"
  have r: "filter_data depth max_depth (JArr vs) = JArr ?r" using assms by simp
  have nul: "depth < max_depth \<Longrightarrow> is_sensitive_value v \<Longrightarrow> filter_data (depth + 1) max_depth v = JNull" for v
    by (cases v) auto
  have same: "depth = max_depth \<Longrightarrow> ?r = vs"
    by (simp add: filter_data_beyond map_idI)
  show ?thesis using r nul same by auto
qed

theorem filter_data_list_elementwise_witness:
  "(0::int) \<le> 20 \<and>
   (\<exists>r. filter_data 0 20 (JArr [JStr ''http://x'', JInt 1]) = JArr r \<and> length r = 2 \<and>
        r ! 0 = JNull \<and> r ! 1 = JInt 1)"
proof -
  let ?vs = "[JStr ''http://x'', JInt 1]"
  have h: "(0::int) \<le> 20" by simp
  obtain r where r: "filter_data 0 20 (JArr ?vs) = JArr r"
    and len: "length r = length ?vs"
    and el: "\<forall>i<length ?vs. r ! i = filter_data (0 + 1) 20 (?vs ! i)"
    and nul: "\<forall>i<length ?vs. (0::int) < 20 \<and> is_sensitive_value (?vs ! i) \<longrightarrow> r ! i = JNull"
    using filter_data_list_elementwise[OF h, of ?vs] by blast
  have "r ! 0 = JNull" using nul sensitive_value_http by simp
  moreover have "r ! 1 = JInt 1" using el by simp
  ultimately show ?thesis using r len by simp
qed

theorem filter_data_drops_sensitive_entries_witness:
  "distinct (map fst [(''api_key'', JStr ''v''), (''note'', JStr ''sk-abc123''), (''name'', JStr ''bot'')]) \<and>
   (0::int) \<le> 20 \<and>
   (\<exists>r. filter_data 0 20
          (JObj [(''api_key'', JStr ''v''), (''note'', JStr ''sk-abc123''), (''name'', JStr ''bot'')]) = JObj r \<and>
        map_of r ''api_key'' = None \<and> map_of r ''note'' = None \<and>
        map_of r ''name'' = Some (JStr ''bot''))"
proof -
  let ?m = "[(''api_key'', JStr ''v''), (''note'', JStr ''sk-abc123''), (''name'', JStr ''bot'')]"
  have d: "distinct (map fst ?m)" by simp
  obtain r where r: "filter_data 0 20 (JObj ?m) = JObj r"
    and m: "\<forall>k. map_of r k =
              (case map_of ?m k of None \<Rightarrow> None
               | Some v \<Rightarrow> if is_sensitive_key k \<or> is_sensitive_value v then None
                           else Some (filter_data (0 + 1) 20 v))"
    using filter_data_drops_sensitive_entries[OF d, of 0 20] by auto
  have "map_of r ''api_key'' = None"
    by (simp add: m sensitive_key_api_key)
  moreover have "map_of r ''note'' = None"
    by (simp add: m sensitive_value_sk del: is_sensitive_value.simps)
  moreover have "map_of r ''name'' = Some (JStr ''bot'')"
    by (simp add: m not_sensitive_key_name not_sensitive_value_bot del: is_sensitive_value.simps)
  ultimately show ?thesis using d r by simp
qed

section \<open>Properties of the document model\<close>

text \<open>
  Claim C9. The keys of the serialized document are \<open>schema_version\<close>, \<open>metadata\<close> and
  \<open>plugins\<close>, always and in this order, followed by \<open>plugin_configs\<close> exactly when the
  document has plugin configurations and by \<open>handler_priority_overrides\<close> exactly when it
  has priority overrides. A field that is \<open>None\<close> has no entry at all in the output (a
  lookup finds nothing, not a null value), and the three required keys carry the
  document's values.
\<close>

theorem to_dict_omits_absent_optionals:
  "map fst (to_dict c) =
     [''schema_version'', ''metadata'', ''plugins''] @
     (if plugin_configs c = None then [] else [''plugin_configs'']) @
     (if handler_priority_overrides c = None then [] else [''handler_priority_overrides'']) \<and>
   (plugin_configs c = None \<longrightarrow> map_of (to_dict c) ''plugin_configs'' = None) \<and>
   (handler_priority_overrides c = None \<longrightarrow>
      map_of (to_dict c) ''handler_priority_overrides'' = None) \<and>
   map_of (to_dict c) ''schema_version'' = Some (JStr (schema_version c)) \<and>
   map_of (to_dict c) ''metadata'' = Some (JObj (metadata_to_dict (metadata c))) \<and>
   map_of (to_dict c) ''plugins'' = Some (JArr (map (\<lambda>p. JObj (plugin_to_dict p)) (plugins c)))"
  by (cases "plugin_configs c"; cases "handler_priority_overrides c") (simp_all add: to_dict_def)

theorem to_dict_omits_absent_optionals_witness:
  "plugin_configs \<lparr>schema_version = ''1.0'', metadata = example_metadata, plugins = [],
       plugin_configs = None, handler_priority_overrides = None\<rparr> = None \<and>
   handler_priority_overrides \<lparr>schema_version = ''1.0'', metadata = example_metadata, plugins = [],
       plugin_configs = None, handler_priority_overrides = None\<rparr> = None \<and>
   map fst (to_dict \<lparr>schema_version = ''1.0'', metadata = example_metadata, plugins = [],
       plugin_configs = None, handler_priority_overrides = None\<rparr>) =
     [''schema_version'', ''metadata'', ''plugins''] \<and>
   map_of (to_dict \<lparr>schema_version = ''1.0'', metadata = example_metadata, plugins = [],
       plugin_configs = None, handler_priority_overrides = None\<rparr>) ''plugin_configs'' = None \<and>
   map_of (to_dict \<lparr>schema_version = ''1.0'', metadata = example_metadata, plugins = [],
       plugin_configs = None, handler_priority_overrides = None\<rparr>) ''handler_priority_overrides'' = None"
  using to_dict_omits_absent_optionals[of "\<lparr>schema_version = ''1.0'', metadata = example_metadata, plugins = [],
       plugin_configs = None, handler_priority_overrides = None\<rparr>"]
  by simp

section \<open>Properties of validation\<close>

lemma two_members_length:
  "x \<in> set xs \<Longrightarrow> y \<in> set xs \<Longrightarrow> x \<noteq> y \<Longrightarrow> 2 \<le> length xs"
proof -
  assume a: "x \<in> set xs" "y \<in> set xs" "x \<noteq> y"
  then have "{x, y} \<subseteq> set xs" by simp
  then have "card {x, y} \<le> card (set xs)" by (simp add: card_mono)
  moreover have "card {x, y} = 2" using a(3) by simp
  moreover have "card (set xs) \<le> length xs" by (rule card_length)
  ultimately show ?thesis by linarith
qed

lemma additional_error_member:
  assumes "k \<in> fst ` set data" and "k \<notin> TOP_PROPERTIES"
  shows "\<exists>extras. k \<in> set extras \<and>
           ValidationError [] (AdditionalNotAllowed extras) \<in> set (iter_errors JSON_SCHEMA (JObj data))"
proof -
  let ?ex = "filter (\<lambda>e. fst e \<notin> TOP_PROPERTIES) data"
  from assms obtain v where kv: "(k, v) \<in> set data" by auto
  with assms(2) have m: "(k, v) \<in> set ?ex" by simp
  then have ne: "?ex \<noteq> []" by (metis empty_iff list.set(1))
  from m have ks: "k \<in> set (sort (remdups (map fst ?ex)))" by force
  have "ValidationError [] (AdditionalNotAllowed (sort (remdups (map fst ?ex))))
          \<in> set (iter_errors JSON_SCHEMA (JObj data))"
    using ne by (simp add: JSON_SCHEMA_def TOP_PROPERTIES_def)
  with ks show ?thesis by blast
qed

lemma required_author_member:
  assumes "map_of data ''metadata'' = Some (JObj mm)" and "''author'' \<notin> fst ` set mm"
  shows "ValidationError [Key ''metadata''] (RequiredProperty ''author'')
           \<in> set (iter_errors JSON_SCHEMA (JObj data))"
  using assms by (simp add: JSON_SCHEMA_def descend_def image_iff)

text \<open>
  Claim C5. \<open>validate_dict\<close> succeeds exactly when the validator finds no error. Otherwise
  it raises with one part per error: the reported errors are a permutation of all the
  errors the validator yields (none is lost, none is added), in an order sorted by path,
  and each part consists of the prefix made from the error's path and of the error's
  message. In particular, when \<open>metadata\<close> is an object without \<open>author\<close> and the payload
  has a top-level key outside the schema's properties, the report has at least two parts:
  the missing property under \<open>metadata\<close> and the unexpected key at the root.
\<close>

theorem validate_dict_reports_every_violation:
  "validate_dict data =
     (if iter_errors JSON_SCHEMA (JObj data) = [] then Inr ()
      else Inl (CollectionValidationError (map error_part (sorted_errors data)))) \<and>
   mset (sorted_errors data) = mset (iter_errors JSON_SCHEMA (JObj data)) \<and>
   sorted (map err_path (sorted_errors data)) \<and>
   (\<forall>mm k. map_of data ''metadata'' = Some (JObj mm) \<and> ''author'' \<notin> fst ` set mm \<and>
            k \<in> fst ` set data \<and> k \<notin> TOP_PROPERTIES \<longrightarrow>
      (\<exists>parts extras.
          validate_dict data = Inl (CollectionValidationError parts) \<and> 2 \<le> length parts \<and>
          (''metadata: '', RequiredProperty ''author'') \<in> set parts \<and>
          k \<in> set extras \<and> ([], AdditionalNotAllowed extras) \<in> set parts))"
proof (intro conjI allI impI)
  have empty_iff: "sorted_errors data = [] \<longleftrightarrow> iter_errors JSON_SCHEMA (JObj data) = []"
    unfolding sorted_errors_def by (metis length_sort length_0_conv)
  show "validate_dict data =
     (if iter_errors JSON_SCHEMA (JObj data) = [] then Inr ()
      else Inl (CollectionValidationError (map error_part (sorted_errors data))))"
    unfolding validate_dict_def Let_def empty_iff by simp
  show "mset (sorted_errors data) = mset (iter_errors JSON_SCHEMA (JObj data))"
    by (simp add: sorted_errors_def)
  show "sorted (map err_path (sorted_errors data))"
    unfolding sorted_errors_def by (rule sorted_sort_key)
next
  fix mm k
  assume h: "map_of data ''metadata'' = Some (JObj mm) \<and> ''author'' \<notin> fst ` set mm \<and>
            k \<in> fst ` set data \<and> k \<notin> TOP_PROPERTIES"
  let ?errs = "iter_errors JSON_SCHEMA (JObj data)"
  let ?parts = "map error_part (sorted_errors data)"
  from h obtain extras where ex: "k \<in> set extras"
    and e1: "ValidationError [] (AdditionalNotAllowed extras) \<in> set ?errs"
    using additional_error_member[of k data] by blast
  from h have e2: "ValidationError [Key ''metadata''] (RequiredProperty ''author'') \<in> set ?errs"
    using required_author_member[of data mm] by blast
  have set_eq: "set (sorted_errors data) = set ?errs" by (simp add: sorted_errors_def)
  have p1: "([], AdditionalNotAllowed extras) \<in> set ?parts"
    using e1 set_eq by (force simp: error_part_def)
  have p2: "(''metadata: '', RequiredProperty ''author'') \<in> set ?parts"
    using e2 set_eq by (force simp: error_part_def)
  have len: "2 \<le> length ?parts" using two_members_length[OF p1 p2] by simp
  have "?errs \<noteq> []" using e1 by auto
  then have v: "validate_dict data = Inl (CollectionValidationError ?parts)"
    unfolding validate_dict_def Let_def sorted_errors_def
    by (metis length_sort length_0_conv)
  show "\<exists>parts extras.
          validate_dict data = Inl (CollectionValidationError parts) \<and> 2 \<le> length parts \<and>
          (''metadata: '', RequiredProperty ''author'') \<in> set parts \<and>
          k \<in> set extras \<and> ([], AdditionalNotAllowed extras) \<in> set parts"
    using v len p1 p2 ex by blast
qed

theorem validate_dict_reports_every_violation_witness:
  "\<exists>parts. validate_dict incomplete_payload = Inl (CollectionValidationError parts) \<and>
       2 \<le> length parts \<and>
       (''metadata: '', RequiredProperty ''author'') \<in> set parts \<and>
       ([], AdditionalNotAllowed [''extra'']) \<in> set parts"
proof -
  let ?mm = "[(''name'', JStr ''demo''), (''description'', JStr []),
              (''version'', JStr ''1.0.0''), (''created_at'', JStr ''now''),
              (''astrbot_version'', JStr ''4.0.0''), (''plugin_count'', JInt 0)]"
  have h: "map_of incomplete_payload ''metadata'' = Some (JObj ?mm) \<and>
           ''author'' \<notin> fst ` set ?mm \<and>
           ''extra'' \<in> fst ` set incomplete_payload \<and> ''extra'' \<notin> TOP_PROPERTIES"
    by (simp add: incomplete_payload_def TOP_PROPERTIES_def)
  from validate_dict_reports_every_violation[of incomplete_payload] h
  obtain parts extras where
    v: "validate_dict incomplete_payload = Inl (CollectionValidationError parts)"
    and l: "2 \<le> length parts"
    and a: "(''metadata: '', RequiredProperty ''author'') \<in> set parts"
    and e: "''extra'' \<in> set extras" "([], AdditionalNotAllowed extras) \<in> set parts"
    by blast
  have "validate_dict incomplete_payload =
          Inl (CollectionValidationError
                [([], AdditionalNotAllowed [''extra'']),
                 (''metadata: '', RequiredProperty ''author'')])"
    by (simp add: validate_dict_def sorted_errors_def incomplete_payload_def JSON_SCHEMA_def
        string_schema_def descend_def error_part_def)
  with v have "parts = [([], AdditionalNotAllowed [''extra'']),
                 (''metadata: '', RequiredProperty ''author'')]" by simp
  with v l a show ?thesis by simp
qed

section \<open>Properties of the priority shim\<close>

lemma those_map_None: "those (map f xs) = None \<longleftrightarrow> (\<exists>x\<in>set xs. f x = None)"
  by (induction xs) (auto split: option.splits)

lemma those_map_Some:
  "those (map f xs) = Some ys \<Longrightarrow> ys = map (\<lambda>x. the (f x)) xs"
  by (induction xs arbitrary: ys) (auto split: option.splits)

lemma those_map_defined:
  "\<forall>x\<in>set xs. f x \<noteq> None \<Longrightarrow> those (map f xs) = Some (map (\<lambda>x. the (f x)) xs)"
  by (induction xs) auto

lemma sorted_uminus: "sorted (map uminus xs) \<longleftrightarrow> sorted_wrt (\<ge>) (xs :: int list)"
  by (induction xs) auto

lemma set_priorities_frame:
  "handlers (set_priorities ov r) = handlers r \<and> sp_put_fails (set_priorities ov r) = sp_put_fails r
   \<and> star_handlers_map (set_priorities ov r) = star_handlers_map r"
  by (induction ov r rule: set_priorities.induct) (auto split: option.splits)

lemma handler_priority_handlers_update:
  "handler_priority (r\<lparr>handlers := hs\<rparr>) = handler_priority r"
  by (rule ext) (simp add: handler_priority_def)

lemma sort_handlers_None:
  "sort_handlers r = None \<longleftrightarrow> (\<exists>h\<in>set (handlers r). handler_priority r h = None)"
proof -
  let ?key = "\<lambda>h. map_option uminus (handler_priority r h)"
  have "sort_handlers r = None \<longleftrightarrow> those (map ?key (handlers r)) = None"
    by (simp add: sort_handlers_def split: option.splits)
  also have "\<dots> \<longleftrightarrow> (\<exists>h\<in>set (handlers r). ?key h = None)"
    by (rule those_map_None)
  also have "\<dots> \<longleftrightarrow> (\<exists>h\<in>set (handlers r). handler_priority r h = None)"
    by simp
  finally show ?thesis .
qed

lemma sort_handlers_sorted:
  assumes "sort_handlers r = Some r2"
  shows "\<exists>ps. dispatch_priorities r2 = Some ps \<and> sorted_wrt (\<ge>) ps \<and>
          mset (handlers r2) = mset (handlers r) \<and> priority_entry r2 = priority_entry r"
proof -
  let ?key = "\<lambda>h. map_option uminus (handler_priority r h)"
  let ?p = "\<lambda>h. the (handler_priority r h)"
  from assms obtain keys where keys: "those (map ?key (handlers r)) = Some keys"
    and r2: "r2 = r\<lparr>handlers := map snd (sort_key fst (zip keys (handlers r)))\<rparr>"
    by (auto simp: sort_handlers_def split: option.splits)
  have def: "\<forall>h\<in>set (handlers r). handler_priority r h \<noteq> None"
    using keys those_map_None[of ?key "handlers r"] by auto
  have keys_eq: "keys = map (\<lambda>h. - ?p h) (handlers r)"
    using those_map_Some[OF keys] def by (auto simp: option.map_sel)
  let ?S = "sort_key fst (zip keys (handlers r))"
  have zip_eq: "zip keys (handlers r) = map (\<lambda>h. (- ?p h, h)) (handlers r)"
    unfolding keys_eq by (induction "handlers r") (auto simp: zip_map1 zip_same_conv_map)
  have setS: "set ?S = (\<lambda>h. (- ?p h, h)) ` set (handlers r)"
    by (simp add: zip_eq)
  have fst_snd: "map fst ?S = map (\<lambda>h. - ?p h) (map snd ?S)"
    using setS by (auto simp: map_eq_conv)
  have "sorted (map fst ?S)" by (rule sorted_sort_key)
  then have "sorted (map uminus (map ?p (map snd ?S)))"
    by (simp add: fst_snd comp_def)
  then have srt: "sorted_wrt (\<ge>) (map ?p (map snd ?S))"
    by (simp only: sorted_uminus)
  have hs2: "handlers r2 = map snd ?S" by (simp add: r2)
  have sub: "set (map snd ?S) = set (handlers r)" using setS by force
  have d2: "\<forall>x\<in>set (map snd ?S). handler_priority r x \<noteq> None"
    using def sub by blast
  have hp2: "handler_priority r2 = handler_priority r"
    by (simp add: r2 handler_priority_handlers_update)
  have "dispatch_priorities r2 = Some (map ?p (map snd ?S))"
    unfolding dispatch_priorities_def hs2 hp2 by (rule those_map_defined[OF d2])
  moreover have "mset (handlers r2) = mset (handlers r)"
  proof -
    have "mset (map snd ?S) = image_mset snd (mset (zip keys (handlers r)))" by simp
    also have "\<dots> = mset (map snd (zip keys (handlers r)))" by simp
    also have "map snd (zip keys (handlers r)) = handlers r"
      by (simp add: zip_eq comp_def)
    finally show ?thesis by (simp add: hs2)
  qed
  moreover have "priority_entry r2 = priority_entry r" by (simp add: r2)
  ultimately show ?thesis using srt by blast
qed

lemma insort_key_decorated:
  "insort_key fst (f x, x) (map (\<lambda>h. (f h, h)) ys) = map (\<lambda>h. (f h, h)) (insort_key f x ys)"
  by (induction ys) simp_all

lemma sort_key_decorated:
  "sort_key fst (map (\<lambda>h. (f h, h)) hs) = map (\<lambda>h. (f h, h)) (sort_key f hs)"
  by (induction hs) (simp_all add: insort_key_decorated)

lemma sort_handlers_stable:
  assumes "sort_handlers r = Some r2"
  shows "handlers r2 = sort_key (\<lambda>h. - the (handler_priority r h)) (handlers r) \<and>
         filter (\<lambda>h. handler_priority r h = Some p) (handlers r2) =
         filter (\<lambda>h. handler_priority r h = Some p) (handlers r)"
proof -
  let ?key = "\<lambda>h. map_option uminus (handler_priority r h)"
  let ?f = "\<lambda>h. - the (handler_priority r h)"
  from assms obtain keys where keys: "those (map ?key (handlers r)) = Some keys"
    and r2: "r2 = r\<lparr>handlers := map snd (sort_key fst (zip keys (handlers r)))\<rparr>"
    by (auto simp: sort_handlers_def split: option.splits)
  have def: "\<forall>h\<in>set (handlers r). handler_priority r h \<noteq> None"
    using keys those_map_None[of ?key "handlers r"] by auto
  have keys_eq: "keys = map ?f (handlers r)"
    using those_map_Some[OF keys] def by (auto simp: option.map_sel)
  have zip_eq: "zip keys (handlers r) = map (\<lambda>h. (?f h, h)) (handlers r)"
    unfolding keys_eq by (induction "handlers r") (auto simp: zip_map1 zip_same_conv_map)
  have hs2: "handlers r2 = sort_key ?f (handlers r)"
    unfolding r2 by (simp add: zip_eq sort_key_decorated comp_def)
  have iff: "handler_priority r h = Some p \<longleftrightarrow> ?f h = - p" if "h \<in> set (handlers r)" for h
    using def that by auto
  have "filter (\<lambda>h. handler_priority r h = Some p) (sort_key ?f (handlers r)) =
        filter (\<lambda>h. ?f h = - p) (sort_key ?f (handlers r))"
    by (rule filter_cong) (simp_all add: iff)
  also have "\<dots> = filter (\<lambda>h. ?f h = - p) (handlers r)"
    by (rule sort_key_stable)
  also have "\<dots> = filter (\<lambda>h. handler_priority r h = Some p) (handlers r)"
    by (rule filter_cong) (simp_all add: iff)
  finally show ?thesis using hs2 by simp
qed

text \<open>
  Claim C3, as stated, fails on ties: with the store rejecting the write and two handlers
  of equal priority (here both without a priority, which counts as 0), the call returns
  true and the priorities in dispatch order are 0, 0, which is not strictly descending.
\<close>

theorem apply_priority_overrides_ties_counterexample:
  "sp_put_fails tied_registry \<and>
   fst (apply_priority_overrides [] tied_registry) = True \<and>
   dispatch_priorities (snd (apply_priority_overrides [] tied_registry)) = Some [0, 0] \<and>
   \<not> sorted_wrt (>) [0::int, 0]"
  by (simp add: tied_registry_def apply_priority_overrides_def sort_handlers_def
      handler_priority_def dispatch_priorities_def)

text \<open>
  Claim C3, amended. \<open>apply_priority_overrides\<close> returns false exactly when the write to
  the store fails and the fallback sort fails, that is, when after the priorities have
  been written into the named handlers some handler of the registry has a priority that
  \<^verbatim>\<open>int\<close> rejects. So when the write fails and the sort succeeds it returns true, and
  then every handler has an integer priority, the priorities in dispatch order are
  descending with ties allowed (each one is at least the next one), the handler list is a
  permutation of the list before the call, the sort is stable (for every priority, the
  handlers of that priority stand in the same relative order as before the call), and the
  priority entries are the ones the fallback loop has written.
\<close>

theorem apply_priority_overrides_fallback:
  assumes "apply_priority_overrides overrides r = (ok, r')"
  shows "(\<not> ok \<longleftrightarrow> sp_put_fails r \<and>
            (\<exists>h\<in>set (handlers r). handler_priority (set_priorities overrides r) h = None)) \<and>
         (sp_put_fails r \<and> ok \<longrightarrow>
            (\<exists>ps. dispatch_priorities r' = Some ps \<and> sorted_wrt (\<ge>) ps) \<and>
            mset (handlers r') = mset (handlers r) \<and>
            (\<forall>p. filter (\<lambda>h. handler_priority r' h = Some p) (handlers r') =
                 filter (\<lambda>h. handler_priority r' h = Some p) (handlers r)) \<and>
            priority_entry r' = priority_entry (set_priorities overrides r))"
proof (cases "sp_put_fails r")
  case False
  with assms show ?thesis by (auto simp: apply_priority_overrides_def)
next
  case True
  let ?r1 = "set_priorities overrides r"
  show ?thesis
  proof (cases "sort_handlers ?r1")
    case None
    with True assms have "\<not> ok" by (auto simp: apply_priority_overrides_def)
    moreover from None have "\<exists>h\<in>set (handlers r). handler_priority ?r1 h = None"
      using sort_handlers_None[of ?r1] set_priorities_frame[of overrides r] by simp
    ultimately show ?thesis using True by simp
  next
    case (Some r2)
    with True assms have ok: "ok" and r': "r' = r2" by (auto simp: apply_priority_overrides_def)
    from Some have nn: "\<not> (\<exists>h\<in>set (handlers r). handler_priority ?r1 h = None)"
      using sort_handlers_None[of ?r1] set_priorities_frame[of overrides r] by simp
    from sort_handlers_sorted[OF Some]
    have s: "(\<exists>ps. dispatch_priorities r' = Some ps \<and> sorted_wrt (\<ge>) ps) \<and>
            mset (handlers r') = mset (handlers r) \<and>
            priority_entry r' = priority_entry ?r1"
      using set_priorities_frame[of overrides r] r' by auto
    have hp: "handler_priority r' = handler_priority ?r1"
    proof
      fix h show "handler_priority r' h = handler_priority ?r1 h"
        using s by (simp add: handler_priority_def)
    qed
    have fr: "handlers ?r1 = handlers r" using set_priorities_frame[of overrides r] by simp
    have hp2: "handler_priority r2 = handler_priority ?r1" using hp r' by simp
    have st: "\<forall>p. filter (\<lambda>h. handler_priority r' h = Some p) (handlers r') =
                 filter (\<lambda>h. handler_priority r' h = Some p) (handlers r)"
    proof
      fix p
      have "filter (\<lambda>h. handler_priority ?r1 h = Some p) (handlers r2) =
            filter (\<lambda>h. handler_priority ?r1 h = Some p) (handlers ?r1)"
        using sort_handlers_stable[OF Some, of p] by (rule conjunct2)
      then show "filter (\<lambda>h. handler_priority r' h = Some p) (handlers r') =
                 filter (\<lambda>h. handler_priority r' h = Some p) (handlers r)"
        unfolding r' hp2 fr .
    qed
    show ?thesis using ok nn s st by blast
  qed
qed

theorem apply_priority_overrides_fallback_witness:
  "sp_put_fails tied_registry \<and>
   apply_priority_overrides [(''second'', 5)] tied_registry =
     (True, snd (apply_priority_overrides [(''second'', 5)] tied_registry)) \<and>
   (\<exists>ps. dispatch_priorities (snd (apply_priority_overrides [(''second'', 5)] tied_registry)) = Some ps
         \<and> sorted_wrt (\<ge>) ps) \<and>
   handlers (snd (apply_priority_overrides [(''second'', 5)] tied_registry)) = [1, 0] \<and>
   apply_priority_overrides [] tied_registry =
     (True, snd (apply_priority_overrides [] tied_registry)) \<and>
   filter (\<lambda>h. handler_priority (snd (apply_priority_overrides [] tied_registry)) h = Some 0)
      (handlers (snd (apply_priority_overrides [] tied_registry))) = [0, 1]"
proof -
  let ?res = "apply_priority_overrides [(''second'', 5)] tied_registry"
  let ?tie = "apply_priority_overrides [] tied_registry"
  have f: "sp_put_fails tied_registry" by (simp add: tied_registry_def)
  have ok: "fst ?res = True"
    by (simp add: tied_registry_def apply_priority_overrides_def sort_handlers_def
        handler_priority_def)
  then have eq: "?res = (True, snd ?res)" by (cases ?res) simp
  have hs: "handlers (snd ?res) = [1, 0]"
    by (simp add: tied_registry_def apply_priority_overrides_def sort_handlers_def
        handler_priority_def)
  from apply_priority_overrides_fallback[OF eq] f
  have srt: "\<exists>ps. dispatch_priorities (snd ?res) = Some ps \<and> sorted_wrt (\<ge>) ps" by blast
  have ok2: "fst ?tie = True"
    by (simp add: tied_registry_def apply_priority_overrides_def sort_handlers_def
        handler_priority_def)
  then have eq2: "?tie = (True, snd ?tie)" by (cases ?tie) simp
  from apply_priority_overrides_fallback[OF eq2] f
  have "filter (\<lambda>h. handler_priority (snd ?tie) h = Some 0) (handlers (snd ?tie)) =
        filter (\<lambda>h. handler_priority (snd ?tie) h = Some 0) (handlers tied_registry)"
    by blast
  also have "\<dots> = [0, 1]"
    by (simp add: tied_registry_def apply_priority_overrides_def sort_handlers_def
        handler_priority_def)
  finally have tie: "filter (\<lambda>h. handler_priority (snd ?tie) h = Some 0) (handlers (snd ?tie)) = [0, 1]" .
  from f eq hs srt eq2 tie show ?thesis by blast
qed

section \<open>Properties of the importer\<close>

lemma uninstall_attempts_append:
  "uninstall_attempts (xs @ ys) = uninstall_attempts xs @ uninstall_attempts ys"
  by (simp add: uninstall_attempts_def map_filter_def)

lemma uninstall_attempts_map: "uninstall_attempts (map Uninstall xs) = xs"
  by (induction xs) (simp_all add: uninstall_attempts_def map_filter_simps)

lemma uninstall_attempts_none:
  "\<forall>e\<in>set ev. \<forall>n. e \<noteq> Uninstall n \<Longrightarrow> uninstall_attempts ev = []"
  by (induction ev) (auto simp: uninstall_attempts_def map_filter_simps split: event.splits)

lemma check_conflicts_Inl: "check_conflicts env names w = Inl e \<Longrightarrow> e = CancelledError"
  by (auto simp: check_conflicts_def split: option.splits detection.splits)

lemma uninstall_loop_log:
  "uninstall_loop env (set (map p_name (plugins c))) ps w log acc = (cn, w', log', acc') \<Longrightarrow>
   \<exists>att rest. uninstall_targets ps c = att @ rest \<and> log' = log @ map Uninstall att \<and>
              (\<not> cn \<longrightarrow> rest = [])"
proof (induction ps arbitrary: w log acc)
  case Nil
  then show ?case by (simp add: uninstall_targets_def map_filter_simps)
next
  case (Cons p ps)
  let ?keep = "set (map p_name (plugins c))"
  show ?case
  proof (cases "s_reserved p \<or> s_name p = None \<or> s_name p = Some [] \<or> the (s_name p) \<in> ?keep")
    case True
    then have skip: "uninstall_loop env ?keep (p # ps) w log acc =
                     uninstall_loop env ?keep ps w log acc"
      by (auto split: option.splits)
    from True have tg: "uninstall_targets (p # ps) c = uninstall_targets ps c"
      by (auto simp: uninstall_targets_def map_filter_simps split: option.splits)
    from Cons.prems skip have "uninstall_loop env ?keep ps w log acc = (cn, w', log', acc')"
      by simp
    from Cons.IH[OF this] tg show ?thesis by simp
  next
    case False
    then obtain n where n: "s_name p = Some n" "n \<noteq> []" "\<not> s_reserved p" "n \<notin> ?keep"
      by auto
    from n have tg: "uninstall_targets (p # ps) c = n # uninstall_targets ps c"
      by (simp add: uninstall_targets_def map_filter_simps)
    obtain r w1 where u: "uninstall_plugin env n w = (r, w1)"
      by (cases "uninstall_plugin env n w")
    show ?thesis
    proof (cases r)
      case Cancelled
      with Cons.prems n u have "log' = log @ map Uninstall [n]" by simp
      with tg have "uninstall_targets (p # ps) c = [n] @ uninstall_targets ps c \<and>
                    log' = log @ map Uninstall [n]" by simp
      moreover from Cons.prems n u Cancelled have "cn" by simp
      ultimately show ?thesis by blast
    next
      case Ok
      with Cons.prems n u have
        "uninstall_loop env ?keep ps w1 (log @ [Uninstall n])
           (acc @ [[(''name'', JStr n), (''status'', JStr ''ok'')]]) = (cn, w', log', acc')"
        by simp
      from Cons.IH[OF this] obtain att rest where
        "uninstall_targets ps c = att @ rest" "log' = (log @ [Uninstall n]) @ map Uninstall att"
        "\<not> cn \<longrightarrow> rest = []" by blast
      then have "uninstall_targets (p # ps) c = (n # att) @ rest \<and>
                 log' = log @ map Uninstall (n # att) \<and> (\<not> cn \<longrightarrow> rest = [])"
        using tg by simp
      then show ?thesis by blast
    next
      case (Raised msg)
      with Cons.prems n u have
        "uninstall_loop env ?keep ps w1 (log @ [Uninstall n])
           (acc @ [[(''name'', JStr n), (''status'', JStr ''error''), (''message'', JStr msg)]])
         = (cn, w', log', acc')"
        by simp
      from Cons.IH[OF this] obtain att rest where
        "uninstall_targets ps c = att @ rest" "log' = (log @ [Uninstall n]) @ map Uninstall att"
        "\<not> cn \<longrightarrow> rest = []" by blast
      then have "uninstall_targets (p # ps) c = (n # att) @ rest \<and>
                 log' = log @ map Uninstall (n # att) \<and> (\<not> cn \<longrightarrow> rest = [])"
        using tg by simp
      then show ?thesis by blast
    qed
  qed
qed

lemma uninstall_loop_no_cancel:
  "\<forall>n w. fst (uninstall_plugin env n w) \<noteq> Cancelled \<Longrightarrow>
   fst (uninstall_loop env keep ps w log acc) = False"
proof (induction ps arbitrary: w log acc)
  case Nil
  then show ?case by simp
next
  case (Cons p ps)
  show ?case
  proof (cases "s_reserved p \<or> s_name p = None \<or> s_name p = Some [] \<or> the (s_name p) \<in> keep")
    case True
    then have "uninstall_loop env keep (p # ps) w log acc = uninstall_loop env keep ps w log acc"
      by (auto split: option.splits)
    with Cons show ?thesis by simp
  next
    case False
    then obtain n where n: "s_name p = Some n" "n \<noteq> []" "\<not> s_reserved p" "n \<notin> keep"
      by auto
    obtain r w1 where u: "uninstall_plugin env n w = (r, w1)"
      by (cases "uninstall_plugin env n w")
    with Cons.prems have "r \<noteq> Cancelled" by (metis fst_conv)
    then show ?thesis using n u Cons.IH[OF Cons.prems] by (cases r) simp_all
  qed
qed

lemma run_installs_log:
  "run_installs env prx ps w log = (rs, w', log') \<Longrightarrow>
   \<exists>ev. log' = log @ ev \<and> (\<forall>e\<in>set ev. \<exists>r x. e = Install r x)"
proof (induction ps arbitrary: w log rs w' log')
  case Nil
  then show ?case by simp
next
  case (Cons p ps)
  obtain r w1 where i: "install_plugin env (p_repo p) prx w = (r, w1)"
    by (cases "install_plugin env (p_repo p) prx w")
  obtain rs1 w2 log2 where rec: "run_installs env prx ps w1 (log @ [Install (p_repo p) prx]) = (rs1, w2, log2)"
    by (cases "run_installs env prx ps w1 (log @ [Install (p_repo p) prx])")
  from Cons.prems i rec have eq: "log' = log2" by simp
  from Cons.IH[OF rec] obtain ev where "log2 = (log @ [Install (p_repo p) prx]) @ ev"
    and "\<forall>e\<in>set ev. \<exists>r x. e = Install r x" by blast
  then have "log2 = log @ (Install (p_repo p) prx # ev) \<and>
             (\<forall>e\<in>set (Install (p_repo p) prx # ev). \<exists>r x. e = Install r x)" by simp
  with eq show ?case by blast
qed

lemma config_step_log:
  "config_step env options ib item (w, log, a) = (cn, w', log', a') \<Longrightarrow>
   \<exists>ev. log' = log @ ev \<and>
     (\<forall>e\<in>set ev. \<exists>n. config_event_name e = Some n \<and> \<not> config_skipped options ib n)"
  by (cases item)
     (auto simp: config_step_def config_skipped_def
           split: json.splits option.splits if_splits prod.splits)

lemma config_loop_log:
  "config_loop env options ib cfgs (w, log, a) = (cn, w', log', a') \<Longrightarrow>
   \<exists>ev. log' = log @ ev \<and>
     (\<forall>e\<in>set ev. \<exists>n. config_event_name e = Some n \<and> \<not> config_skipped options ib n)"
proof (induction cfgs arbitrary: w log a)
  case Nil
  then show ?case by simp
next
  case (Cons item rest)
  obtain c1 w1 log1 a1 where st: "config_step env options ib item (w, log, a) = (c1, w1, log1, a1)"
    by (cases "config_step env options ib item (w, log, a)")
  from config_step_log[OF st] obtain ev1 where ev1: "log1 = log @ ev1"
    "\<forall>e\<in>set ev1. \<exists>n. config_event_name e = Some n \<and> \<not> config_skipped options ib n"
    by blast
  show ?case
  proof (cases c1)
    case True
    with Cons.prems st have "log' = log1" by simp
    with ev1 show ?thesis by blast
  next
    case False
    with Cons.prems st have "config_loop env options ib rest (w1, log1, a1) = (cn, w', log', a')"
      by simp
    from Cons.IH[OF this] obtain ev2 where ev2: "log' = log1 @ ev2"
      "\<forall>e\<in>set ev2. \<exists>n. config_event_name e = Some n \<and> \<not> config_skipped options ib n"
      by blast
    from ev1 ev2 have "log' = log @ (ev1 @ ev2) \<and>
      (\<forall>e\<in>set (ev1 @ ev2). \<exists>n. config_event_name e = Some n \<and> \<not> config_skipped options ib n)"
      by auto
    then show ?thesis by blast
  qed
qed

lemma import_log_structure:
  assumes mode: "import_mode options \<in> {''add'', ''clean''}"
  shows "\<exists>att ins cfg pri.
     import_log env c options w =
       [CheckConflicts (map p_name (plugins c))] @ map Uninstall att @ ins @ cfg @ pri \<and>
     (\<forall>e\<in>set ins. \<exists>r x. e = Install r x) \<and>
     (\<forall>e\<in>set cfg. \<exists>n. config_event_name e = Some n \<and>
                      \<not> config_skipped options (installed_names env w) n) \<and>
     (\<forall>e\<in>set pri. \<exists>ov. e = ApplyPriority ov) \<and>
     (import_mode options \<noteq> ''clean'' \<longrightarrow> att = []) \<and>
     (import_mode options = ''clean'' \<longrightarrow>
        (\<exists>rest. uninstall_targets (get_all_stars env w) c = att @ rest) \<and>
        (fst (import_collection env c options w) \<noteq> Inl CancelledError \<longrightarrow>
           att = uninstall_targets (get_all_stars env w) c) \<and>
        (check_conflicts env (map p_name (plugins c)) w \<noteq> Inl CancelledError \<and>
         (\<forall>n w'. fst (uninstall_plugin env n w') \<noteq> Cancelled) \<longrightarrow>
           att = uninstall_targets (get_all_stars env w) c))"
proof -
  let ?names = "map p_name (plugins c)"
  let ?ib = "installed_names env w"
  let ?log0 = "[CheckConflicts ?names]"
  let ?T = "uninstall_targets (get_all_stars env w) c"
  let ?res = "fst (import_collection env c options w)"
  define Pins where "Pins = (\<lambda>ins. \<forall>e\<in>set ins. \<exists>r x. e = Install r x)"
  define Pcfg where "Pcfg = (\<lambda>cfg. \<forall>e\<in>set cfg. \<exists>n. config_event_name e = Some n \<and>
                      \<not> config_skipped options ?ib n)"
  define Ppri where "Ppri = (\<lambda>pri. \<forall>e\<in>set pri. \<exists>ov. e = ApplyPriority ov)"
  define nocancel where "nocancel \<longleftrightarrow> check_conflicts env ?names w \<noteq> Inl CancelledError \<and>
         (\<forall>n w'. fst (uninstall_plugin env n w') \<noteq> Cancelled)"
  define Q where "Q = (\<lambda>att. (import_mode options \<noteq> ''clean'' \<longrightarrow> att = []) \<and>
     (import_mode options = ''clean'' \<longrightarrow>
        (\<exists>rest. ?T = att @ rest) \<and> (?res \<noteq> Inl CancelledError \<longrightarrow> att = ?T) \<and>
        (nocancel \<longrightarrow> att = ?T)))"
  define L where "L = import_log env c options w"
  have e0: "Pins []" "Pcfg []" "Ppri []" by (simp_all add: Pins_def Pcfg_def Ppri_def)
  have goal: "\<exists>att ins cfg pri. L = ?log0 @ map Uninstall att @ ins @ cfg @ pri \<and>
     Pins ins \<and> Pcfg cfg \<and> Ppri pri \<and> Q att"
  proof (cases "check_conflicts env ?names w")
    case (Inl e)
    then have e: "e = CancelledError" by (rule check_conflicts_Inl)
    have imp: "import_collection env c options w = (Inl CancelledError, w, ?log0)"
      using mode Inl e by (simp add: import_collection_def Let_def)
    then have l: "L = ?log0 @ map Uninstall [] @ [] @ [] @ []"
      by (simp add: import_log_def L_def)
    have q: "Q []" using imp Inl e by (simp add: Q_def nocancel_def)
    from l e0 q show ?thesis by blast
  next
    case (Inr report)
    let ?ul = "if import_mode options = ''clean''
               then uninstall_loop env (set ?names) (get_all_stars env w) w ?log0 []
               else (False, w, ?log0, [])"
    obtain cn1 w1 log1 un where ul: "?ul = (cn1, w1, log1, un)" by (cases ?ul)
    have "\<exists>att. log1 = ?log0 @ map Uninstall att \<and>
            (import_mode options \<noteq> ''clean'' \<longrightarrow> att = [] \<and> \<not> cn1) \<and>
            (import_mode options = ''clean'' \<longrightarrow>
               (\<exists>rest. ?T = att @ rest \<and> (\<not> cn1 \<longrightarrow> rest = [])))"
    proof (cases "import_mode options = ''clean''")
      case True
      with ul have "uninstall_loop env (set ?names) (get_all_stars env w) w ?log0 [] =
                    (cn1, w1, log1, un)" by simp
      from uninstall_loop_log[OF this] True show ?thesis by blast
    next
      case False
      with ul show ?thesis by simp
    qed
    then obtain att where att: "log1 = ?log0 @ map Uninstall att"
      and att_add: "import_mode options \<noteq> ''clean'' \<longrightarrow> att = [] \<and> \<not> cn1"
      and att_clean: "import_mode options = ''clean'' \<longrightarrow>
               (\<exists>rest. ?T = att @ rest \<and> (\<not> cn1 \<longrightarrow> rest = []))"
      by blast
    have nc1: "\<not> cn1" if "\<forall>n w'. fst (uninstall_plugin env n w') \<noteq> Cancelled"
    proof (cases "import_mode options = ''clean''")
      case True
      from uninstall_loop_no_cancel[OF that, of "set ?names" "get_all_stars env w" w ?log0 "[]"]
        ul True show ?thesis by simp
    next
      case False
      with att_add show ?thesis by simp
    qed
    show ?thesis
    proof (cases cn1)
      case True
      have imp: "import_collection env c options w = (Inl CancelledError, w1, log1)"
        using mode Inr ul True
        by (simp add: import_collection_def Let_def)
      then have l: "L = ?log0 @ map Uninstall att @ [] @ [] @ []"
        using att by (simp add: import_log_def L_def)
      have q: "Q att"
        unfolding Q_def nocancel_def using imp att_add att_clean True nc1 by auto
      from l e0 q show ?thesis by blast
    next
      case False
      then have full: "import_mode options = ''clean'' \<longrightarrow> att = ?T"
        using att_clean by auto
      have q: "Q att" unfolding Q_def using full att_add att_clean by auto
      let ?tasks = "filter (\<lambda>p. \<not> skip_install options ?ib p) (plugins c)"
      obtain raw w2 log2 where ri: "run_installs env (proxy options) ?tasks w1 log1 = (raw, w2, log2)"
        by (cases "run_installs env (proxy options) ?tasks w1 log1")
      from run_installs_log[OF ri] obtain ins where ins: "log2 = log1 @ ins" "Pins ins"
        unfolding Pins_def by blast
      show ?thesis
      proof (cases "collect_results raw [] []")
        case None
        have "import_collection env c options w = (Inl CancelledError, w2, log2)"
          using mode Inr ul False ri None
          by (simp add: import_collection_def Let_def)
        then have l: "L = ?log0 @ map Uninstall att @ ins @ [] @ []"
          using ins att by (simp add: import_log_def L_def)
        from l ins(2) e0 q show ?thesis by blast
      next
        case (Some res)
        obtain ir fr where res: "res = (ir, fr)" by (cases res)
        let ?cl = "case plugin_configs c of
                     Some cfgs \<Rightarrow>
                       if apply_configs options
                       then config_loop env options ?ib cfgs (w2, log2, 0)
                       else (False, w2, log2, 0)
                   | None \<Rightarrow> (False, w2, log2, 0)"
        obtain cn3 w3 log3 applied where cl: "?cl = (cn3, w3, log3, applied)" by (cases ?cl)
        have "\<exists>cfg. log3 = log2 @ cfg \<and> Pcfg cfg"
        proof (cases "plugin_configs c")
          case None
          with cl e0 show ?thesis by simp
        next
          case (Some cfgs)
          show ?thesis
          proof (cases "apply_configs options")
            case True
            with Some cl have "config_loop env options ?ib cfgs (w2, log2, 0) =
                               (cn3, w3, log3, applied)" by simp
            from config_loop_log[OF this] show ?thesis unfolding Pcfg_def .
          next
            case False
            with Some cl e0 show ?thesis by simp
          qed
        qed
        then obtain cfg where cfg: "log3 = log2 @ cfg" "Pcfg cfg" by blast
        show ?thesis
        proof (cases cn3)
          case True
          have "import_collection env c options w = (Inl CancelledError, w3, log3)"
            using mode Inr ul \<open>\<not> cn1\<close> ri Some res cl True
            by (simp add: import_collection_def Let_def)
          then have l: "L = ?log0 @ map Uninstall att @ ins @ cfg @ []"
            using ins att cfg by (simp add: import_log_def L_def)
          from l ins(2) cfg(2) e0 q show ?thesis by blast
        next
          case False
          let ?pl = "case handler_priority_overrides c of
                       Some ov \<Rightarrow>
                         if apply_priority options
                         then (case apply_priority_overrides ov (reg w3) of
                                 (b, r') \<Rightarrow> (b, w3\<lparr>reg := r'\<rparr>, log3 @ [ApplyPriority ov]))
                         else (False, w3, log3)
                     | None \<Rightarrow> (False, w3, log3)"
          obtain ok w4 log4 where pl: "?pl = (ok, w4, log4)" by (cases ?pl)
          have "\<exists>pri. log4 = log3 @ pri \<and> Ppri pri"
            unfolding Ppri_def using pl by (auto split: option.splits if_splits prod.splits)
          then obtain pri where pri: "log4 = log3 @ pri" "Ppri pri" by blast
          have "snd (snd (import_collection env c options w)) = log4"
            using mode Inr ul \<open>\<not> cn1\<close> ri Some res cl False pl
            by (simp add: import_collection_def Let_def)
          then have l: "L = ?log0 @ map Uninstall att @ ins @ cfg @ pri"
            using ins att cfg pri by (simp add: import_log_def L_def)
          from l ins(2) cfg(2) pri(2) q show ?thesis by blast
        qed
      qed
    qed
  qed
  then show ?thesis
    unfolding Q_def Pins_def Pcfg_def Ppri_def nocancel_def L_def .
qed

text \<open>
  Claim C6. When \<open>import_mode\<close> is neither \<open>add\<close> nor \<open>clean\<close>, \<open>import_collection\<close>
  raises \<^verbatim>\<open>ValueError\<close>, the world is the one it was called with, and no call into a
  collaborator has been made: no conflict check, no uninstall, no install, no saved
  configuration, no reload and no priority write.
\<close>

theorem import_collection_rejects_invalid_mode:
  assumes "import_mode options \<noteq> ''add''" and "import_mode options \<noteq> ''clean''"
  shows "import_collection env collection options w = (Inl (ValueError IMPORT_MODE_ERROR), w, [])"
  using assms by (simp add: import_collection_def)

theorem import_collection_rejects_invalid_mode_witness:
  "import_mode (options_of ''replace'') \<noteq> ''add'' \<and>
   import_mode (options_of ''replace'') \<noteq> ''clean'' \<and>
   import_collection toy_pm (collection_of [plugin_ref ''A''] None) (options_of ''replace'')
       (toy_world three_stars) =
     (Inl (ValueError IMPORT_MODE_ERROR), toy_world three_stars, [])"
proof -
  have a: "import_mode (options_of ''replace'') \<noteq> ''add''" by (simp add: options_of_def)
  have b: "import_mode (options_of ''replace'') \<noteq> ''clean''" by (simp add: options_of_def)
  from import_collection_rejects_invalid_mode[OF a b] a b show ?thesis by blast
qed

text \<open>
  Claim C4, as stated, fails when the run is cancelled during the uninstall phase: the
  handler \<^verbatim>\<open>except Exception\<close> around the awaited uninstall does not catch
  \<^verbatim>\<open>asyncio.CancelledError\<close>, so the loop ends there. With A, B, the reserved C and D
  installed, the document naming A and the uninstall of B cancelled, the plugins to
  remove are B and D, but only B is attempted and the import raises \<^verbatim>\<open>CancelledError\<close>.
\<close>

theorem clean_import_cancelled_counterexample:
  "import_mode (options_of ''clean'') = ''clean'' \<and>
   uninstall_targets (get_all_stars cancelling_pm (toy_world four_stars))
     (collection_of [plugin_ref ''A''] None) = [''B'', ''D''] \<and>
   uninstall_attempts
     (import_log cancelling_pm (collection_of [plugin_ref ''A''] None) (options_of ''clean'')
        (toy_world four_stars)) = [''B''] \<and>
   fst (import_collection cancelling_pm (collection_of [plugin_ref ''A''] None)
          (options_of ''clean'') (toy_world four_stars)) = Inl CancelledError"
  by (simp add: import_log_def import_collection_def check_conflicts_def uninstall_targets_def
      uninstall_attempts_def map_filter_simps cancelling_pm_def toy_pm_def toy_world_def
      four_stars_def star_def collection_of_def plugin_ref_def options_of_def)

text \<open>
  Claim C4, amended. With \<open>import_mode = clean\<close>, the names passed to \<open>uninstall_plugin\<close>
  during the run are, in order, an initial part of the list of the plugins installed when
  the run starts that are not reserved, have a non-empty name and whose name is not a
  plugin name of the document. They are that whole list whenever the import does not
  raise \<^verbatim>\<open>CancelledError\<close>, and also whenever neither the conflict check nor any uninstall
  call is cancelled (whatever happens in the later phases). In every run, each
  uninstalled name is non-empty, is outside the document and belongs to an installed
  plugin that is not reserved. With A, B and the reserved C installed, the document
  naming A and no cancellation, the only uninstall is B.
\<close>

theorem clean_import_uninstalls_targets_in_order:
  assumes "import_mode options = ''clean''"
  shows "(\<exists>rest. uninstall_targets (get_all_stars env w) collection =
                  uninstall_attempts (import_log env collection options w) @ rest) \<and>
         (fst (import_collection env collection options w) \<noteq> Inl CancelledError \<longrightarrow>
            uninstall_attempts (import_log env collection options w) =
              uninstall_targets (get_all_stars env w) collection) \<and>
         (check_conflicts env (map p_name (plugins collection)) w \<noteq> Inl CancelledError \<and>
          (\<forall>n w'. fst (uninstall_plugin env n w') \<noteq> Cancelled) \<longrightarrow>
            uninstall_attempts (import_log env collection options w) =
              uninstall_targets (get_all_stars env w) collection) \<and>
         (\<forall>n\<in>set (uninstall_attempts (import_log env collection options w)).
            n \<noteq> [] \<and> n \<notin> set (map p_name (plugins collection)) \<and>
            (\<exists>p\<in>set (get_all_stars env w). s_name p = Some n \<and> \<not> s_reserved p))"
proof -
  let ?T = "uninstall_targets (get_all_stars env w) collection"
  from assms have mode: "import_mode options \<in> {''add'', ''clean''}" by simp
  from import_log_structure[OF mode, of env collection w] assms
  obtain att ins cfg pri rest where
    log: "import_log env collection options w =
       [CheckConflicts (map p_name (plugins collection))] @ map Uninstall att @ ins @ cfg @ pri"
    and ins: "\<forall>e\<in>set ins. \<exists>r x. e = Install r x"
    and cfg: "\<forall>e\<in>set cfg. \<exists>n. config_event_name e = Some n \<and>
                      \<not> config_skipped options (installed_names env w) n"
    and pri: "\<forall>e\<in>set pri. \<exists>ov. e = ApplyPriority ov"
    and pre: "?T = att @ rest"
    and res: "fst (import_collection env collection options w) \<noteq> Inl CancelledError \<longrightarrow> att = ?T"
    and env: "check_conflicts env (map p_name (plugins collection)) w \<noteq> Inl CancelledError \<and>
         (\<forall>n w'. fst (uninstall_plugin env n w') \<noteq> Cancelled) \<longrightarrow> att = ?T"
    by blast
  have i0: "uninstall_attempts ins = []" using ins by (intro uninstall_attempts_none) auto
  have c0: "uninstall_attempts cfg = []" using cfg by (intro uninstall_attempts_none) auto
  have p0: "uninstall_attempts pri = []" using pri by (intro uninstall_attempts_none) auto
  have c1: "uninstall_attempts [CheckConflicts (map p_name (plugins collection))] = []"
    by (simp add: uninstall_attempts_def map_filter_simps)
  have eq: "uninstall_attempts (import_log env collection options w) = att"
    unfolding log uninstall_attempts_append i0 c0 p0 c1 uninstall_attempts_map by simp
  have tg: "n \<noteq> [] \<and> n \<notin> set (map p_name (plugins collection)) \<and>
            (\<exists>p\<in>set stars. s_name p = Some n \<and> \<not> s_reserved p)"
    if "n \<in> set (uninstall_targets stars collection)" for n stars
    using that
    by (induction stars)
       (auto simp: uninstall_targets_def map_filter_simps split: option.splits if_splits)
  have sub: "set att \<subseteq> set ?T" using pre by auto
  show ?thesis unfolding eq using pre res env tg sub by blast
qed

theorem clean_import_uninstalls_targets_in_order_witness:
  "import_mode (options_of ''clean'') = ''clean'' \<and>
   check_conflicts toy_pm (map p_name (plugins (collection_of [plugin_ref ''A''] None)))
     (toy_world three_stars) \<noteq> Inl CancelledError \<and>
   uninstall_attempts
     (import_log toy_pm (collection_of [plugin_ref ''A''] None) (options_of ''clean'')
        (toy_world three_stars)) = [''B'']"
proof -
  let ?c = "collection_of [plugin_ref ''A''] None"
  have m: "import_mode (options_of ''clean'') = ''clean''" by (simp add: options_of_def)
  have t: "uninstall_targets (get_all_stars toy_pm (toy_world three_stars)) ?c = [''B'']"
    by (simp add: uninstall_targets_def map_filter_simps toy_pm_def toy_world_def three_stars_def
        star_def collection_of_def plugin_ref_def)
  have k: "check_conflicts toy_pm (map p_name (plugins ?c)) (toy_world three_stars)
             \<noteq> Inl CancelledError"
    by (simp add: check_conflicts_def toy_pm_def)
  have u: "\<forall>n w'. fst (uninstall_plugin toy_pm n w') \<noteq> Cancelled"
    by (simp add: toy_pm_def)
  from clean_import_uninstalls_targets_in_order[OF m, of toy_pm "toy_world three_stars" ?c] k u
  have "uninstall_attempts (import_log toy_pm ?c (options_of ''clean'') (toy_world three_stars)) =
        uninstall_targets (get_all_stars toy_pm (toy_world three_stars)) ?c"
    by blast
  with t m k show ?thesis by simp
qed

text \<open>
  Claim C7. With \<open>import_mode = add\<close> and \<open>overwrite_existing_configs\<close> false, a run
  makes no call that persists a configuration for, or reloads, a plugin whose name was
  installed when the run started, whatever the document carries under that name.
\<close>

theorem add_import_keeps_existing_config:
  assumes "import_mode options = ''add''" and "\<not> overwrite_existing_configs options"
    and "Some n \<in> installed_names env w"
  shows "\<forall>e\<in>set (import_log env collection options w). config_event_name e \<noteq> Some n"
proof -
  from assms have mode: "import_mode options \<in> {''add'', ''clean''}" by simp
  have sk: "config_skipped options (installed_names env w) n"
    using assms by (simp add: config_skipped_def)
  from import_log_structure[OF mode, of env collection w]
  obtain att ins cfg pri where
    log: "import_log env collection options w =
       [CheckConflicts (map p_name (plugins collection))] @ map Uninstall att @ ins @ cfg @ pri"
    and ins: "\<forall>e\<in>set ins. \<exists>r x. e = Install r x"
    and cfg: "\<forall>e\<in>set cfg. \<exists>m. config_event_name e = Some m \<and>
                      \<not> config_skipped options (installed_names env w) m"
    and pri: "\<forall>e\<in>set pri. \<exists>ov. e = ApplyPriority ov"
    by blast
  show ?thesis
  proof
    fix e assume "e \<in> set (import_log env collection options w)"
    then consider "e = CheckConflicts (map p_name (plugins collection))"
      | "e \<in> set (map Uninstall att)" | "e \<in> set ins" | "e \<in> set cfg" | "e \<in> set pri"
      unfolding log by auto
    then show "config_event_name e \<noteq> Some n"
    proof cases
      case 1 then show ?thesis by simp
    next
      case 2 then show ?thesis by auto
    next
      case 3 with ins show ?thesis by auto
    next
      case 4 with cfg sk show ?thesis by auto
    next
      case 5 with pri show ?thesis by auto
    qed
  qed
qed

theorem add_import_keeps_existing_config_witness:
  "import_mode (options_of ''add'') = ''add'' \<and>
   \<not> overwrite_existing_configs (options_of ''add'') \<and>
   Some ''A'' \<in> installed_names toy_pm (toy_world configured_stars) \<and>
   SaveConfig ''A'' [(''x'', JInt 1)] \<notin>
     set (import_log toy_pm (collection_of [plugin_ref ''A''] (Some [(''A'', JObj [(''x'', JInt 1)])]))
            (options_of ''add'') (toy_world configured_stars)) \<and>
   Reload ''A'' \<notin>
     set (import_log toy_pm (collection_of [plugin_ref ''A''] (Some [(''A'', JObj [(''x'', JInt 1)])]))
            (options_of ''add'') (toy_world configured_stars))"
proof -
  have a: "import_mode (options_of ''add'') = ''add''" by (simp add: options_of_def)
  have b: "\<not> overwrite_existing_configs (options_of ''add'')" by (simp add: options_of_def)
  have c: "Some ''A'' \<in> installed_names toy_pm (toy_world configured_stars)"
    by (simp add: installed_names_def toy_pm_def toy_world_def configured_stars_def star_def)
  from add_import_keeps_existing_config[OF a b c] a b c show ?thesis by fastforce
qed

section \<open>Properties of the exporter\<close>

lemma map_of_to_dict:
  "map_of (to_dict c) ''schema_version'' = Some (JStr (schema_version c))"
  "map_of (to_dict c) ''metadata'' = Some (JObj (metadata_to_dict (metadata c)))"
  "map_of (to_dict c) ''plugins'' = Some (JArr (map (\<lambda>p. JObj (plugin_to_dict p)) (plugins c)))"
  "map_of (to_dict c) ''plugin_configs'' = map_option JObj (plugin_configs c)"
  "map_of (to_dict c) ''handler_priority_overrides'' =
     map_option (\<lambda>ov. JObj (int_dict ov)) (handler_priority_overrides c)"
  by (cases "plugin_configs c"; cases "handler_priority_overrides c"; simp add: to_dict_def)+

lemma metadata_roundtrip: "metadata_from_dict (JObj (metadata_to_dict m)) = Some m"
  by (simp add: metadata_from_dict_def metadata_to_dict_def get_str_def get_int_or_0_def)

lemma plugin_roundtrip: "plugin_from_dict (JObj (plugin_to_dict p)) = Some p"
  by (cases "p_display_name p") (simp_all add: plugin_from_dict_def plugin_to_dict_def get_str_def)

lemma plugins_roundtrip:
  "those (map plugin_from_dict (map (\<lambda>p. JObj (plugin_to_dict p)) ps)) = Some ps"
  by (induction ps) (simp_all add: plugin_roundtrip)

lemma plugins_roundtrip_comp:
  "those (map (plugin_from_dict \<circ> (\<lambda>p. JObj (plugin_to_dict p))) ps) = Some ps"
  using plugins_roundtrip[of ps] by (simp add: comp_def)

lemma int_dict_roundtrip: "as_int_dict (int_dict ov) = Some ov"
  by (induction ov) (auto simp: as_int_dict_def int_dict_def)

lemma from_dict_to_dict:
  assumes "validate_dict (to_dict c) = Inr ()"
  shows "from_dict (to_dict c) = Inr c"
proof -
  have "from_dict (to_dict c) =
        Inr \<lparr>schema_version = schema_version c, metadata = metadata c, plugins = plugins c,
             plugin_configs = plugin_configs c,
             handler_priority_overrides = handler_priority_overrides c\<rparr>"
    unfolding from_dict_def assms
    by (cases "plugin_configs c"; cases "handler_priority_overrides c")
       (simp_all add: map_of_to_dict metadata_roundtrip plugins_roundtrip_comp get_str_def
          int_dict_roundtrip)
  then show ?thesis by simp
qed


text \<open>
  Claim C1. Whenever \<open>export\<close> returns a payload (with the default options or any
  others), the payload passes \<open>validate_dict\<close>, it is the serialization of the document
  that \<open>export\<close> assembled, and parsing it with \<open>from_dict\<close> succeeds and gives that
  document back.
\<close>

theorem export_round_trip:
  assumes "export env VERSION now options w = Inr payload"
  shows "validate_dict payload = Inr () \<and>
         payload = to_dict (export_collection env VERSION now options w) \<and>
         from_dict payload = Inr (export_collection env VERSION now options w)"
proof -
  let ?c = "export_collection env VERSION now options w"
  from assms have v: "validate_dict (to_dict ?c) = Inr ()" and p: "payload = to_dict ?c"
    by (auto simp: export_def Let_def split: sum.splits)
  from from_dict_to_dict[OF v] v p show ?thesis by simp
qed

theorem export_round_trip_witness:
  "export toy_pm ''4.1.0'' ''2024-01-01T00:00:00+00:00'' (default_options ''demo'')
       (toy_world secret_stars) =
     Inr (to_dict (export_collection toy_pm ''4.1.0'' ''2024-01-01T00:00:00+00:00''
            (default_options ''demo'') (toy_world secret_stars))) \<and>
   from_dict (to_dict (export_collection toy_pm ''4.1.0'' ''2024-01-01T00:00:00+00:00''
            (default_options ''demo'') (toy_world secret_stars))) =
     Inr (export_collection toy_pm ''4.1.0'' ''2024-01-01T00:00:00+00:00''
            (default_options ''demo'') (toy_world secret_stars)) \<and>
   plugin_configs (export_collection toy_pm ''4.1.0'' ''2024-01-01T00:00:00+00:00''
            (default_options ''demo'') (toy_world secret_stars)) =
     Some [(''A'', JObj [(''level'', JInt 3)])]"
proof -
  let ?c = "export_collection toy_pm ''4.1.0'' ''2024-01-01T00:00:00+00:00''
            (default_options ''demo'') (toy_world secret_stars)"
  have sk: "is_sensitive_key ''api_key''" by (rule sensitive_key_api_key)
  have nk: "\<not> is_sensitive_key ''level''" by code_simp
  have c: "?c = \<lparr>schema_version = ''1.0'',
      metadata = \<lparr>m_name = ''demo'', m_description = [], m_author = [], m_version = ''1.0.0'',
         m_created_at = ''2024-01-01T00:00:00+00:00'', m_astrbot_version = ''4.1.0'',
         m_plugin_count = 2\<rparr>,
      plugins = [\<lparr>p_name = ''A'', p_repo = ''A'', p_version = ''1.0'', p_display_name = None\<rparr>,
                 \<lparr>p_name = ''B'', p_repo = ''B'', p_version = ''1.0'', p_display_name = None\<rparr>],
      plugin_configs = Some [(''A'', JObj [(''level'', JInt 3)])],
      handler_priority_overrides = Some []\<rparr>"
    by (simp add: export_collection_def default_options_def toy_pm_def toy_world_def
        secret_stars_def star_def falsy_def sk nk SCHEMA_VERSION_def get_priority_overrides_def
        tied_registry_def handler_priority_def)
  have v: "validate_dict (to_dict ?c) = Inr ()"
    unfolding c
    by (simp add: validate_dict_def sorted_errors_def to_dict_def metadata_to_dict_def
        plugin_to_dict_def int_dict_def JSON_SCHEMA_def string_schema_def descend_def)
  then have e: "export toy_pm ''4.1.0'' ''2024-01-01T00:00:00+00:00'' (default_options ''demo'')
       (toy_world secret_stars) = Inr (to_dict ?c)"
    by (simp add: export_def)
  from export_round_trip[OF e] e c show ?thesis by simp
qed

end
